theory Spec2Isabelle
  imports Complex_Main "HOL-Library.Word"
begin

section \<open>Frame decoder (TcpServer.py)\<close>

text \<open>
  The receive buffer is a \<open>bytearray\<close>; a byte is an 8-bit word. A packet on the wire is
  \<open>[u32 type][u32 length][length bytes]\<close>, both header fields big-endian
  (\<open>struct.unpack("!II", ...)\<close>). \<open>_process_data_packets\<close> hands a payload of type 0 to
  \<open>_process_frame_data\<close>, one of type 1 to \<open>_process_coordinate_data\<close>, and consumes a
  packet of any other type without handing it to anyone.
\<close>

type_synonym byte = "8 word"

datatype raw_packet = FramePacket "byte list" | CoordPacket "byte list"

definition be_u32 :: "byte list \<Rightarrow> nat" where
  "be_u32 bs = foldl (\<lambda>acc b. acc * 256 + unat b) 0 (take 4 bs)"

definition dispatch :: "nat \<Rightarrow> byte list \<Rightarrow> raw_packet list" where
  "dispatch packet_type packet_data =
     (if packet_type = 0 then [FramePacket packet_data]
      else if packet_type = 1 then [CoordPacket packet_data]
      else [])"

text \<open>
  The \<open>while len(self.read_buffer) >= 8\<close> loop of \<open>_process_data_packets\<close>. It returns the
  payloads handed out, in order, and the bytes left in \<open>read_buffer\<close>.
\<close>

function process_data_packets :: "byte list \<Rightarrow> raw_packet list \<times> byte list" where
  "process_data_packets read_buffer =
     (if 8 \<le> length read_buffer then
        (let packet_type = be_u32 (take 4 read_buffer);
             packet_size = be_u32 (take 4 (drop 4 read_buffer))
         in if length read_buffer < 8 + packet_size then ([], read_buffer)
            else (let packet_data = take packet_size (drop 8 read_buffer);
                      (out, rest) = process_data_packets (drop (8 + packet_size) read_buffer)
                  in (dispatch packet_type packet_data @ out, rest)))
      else ([], read_buffer))"
  by pat_completeness auto
termination
  by (relation "measure length") auto

declare process_data_packets.simps [simp del]

record tcp_server =
  read_buffer :: "byte list"
  last_data_time :: real
  last_packet_time :: real
  current_delay_ms :: real

text \<open>
  One round of the loop in \<open>_on_data_ready_read\<close>: \<open>readAll()\<close> returned \<open>data\<close>, and the two
  calls of \<open>time.time()\<close> returned \<open>t_heartbeat\<close> and \<open>current_time\<close>.
\<close>

definition on_data_ready_read ::
  "real \<Rightarrow> real \<Rightarrow> byte list \<Rightarrow> tcp_server \<Rightarrow> raw_packet list \<times> tcp_server" where
  "on_data_ready_read t_heartbeat current_time data srv =
     (let buf = read_buffer srv @ data;
          time_diff = current_time - last_packet_time srv;
          (out, rest) = process_data_packets buf
      in (out, srv\<lparr>read_buffer := rest, last_data_time := t_heartbeat,
                    last_packet_time := current_time,
                    current_delay_ms := time_diff * 1000\<rparr>))"

text \<open>Chunks arriving one after the other, each with its two clock readings.\<close>

fun feed_chunks ::
  "(real \<times> real \<times> byte list) list \<Rightarrow> tcp_server \<Rightarrow> raw_packet list \<times> tcp_server" where
  "feed_chunks [] srv = ([], srv)"
| "feed_chunks ((t_heartbeat, current_time, data) # chunks) srv =
     (let (out, srv1) = on_data_ready_read t_heartbeat current_time data srv;
          (out', srv2) = feed_chunks chunks srv1
      in (out @ out', srv2))"

definition chunk_bytes :: "(real \<times> real \<times> byte list) list \<Rightarrow> byte list" where
  "chunk_bytes chunks = concat (map (\<lambda>(t_heartbeat, current_time, data). data) chunks)"

subsection \<open>Reassembly does not depend on the chunk boundaries\<close>

lemma process_data_packets_incomplete:
  "\<not> (8 \<le> length buf \<and> 8 + be_u32 (take 4 (drop 4 buf)) \<le> length buf) \<Longrightarrow>
   process_data_packets buf = ([], buf)"
  by (subst process_data_packets.simps) (auto simp: Let_def)

lemma process_data_packets_complete:
  assumes "8 \<le> length buf" "8 + be_u32 (take 4 (drop 4 buf)) \<le> length buf"
  shows "process_data_packets (buf @ extra) =
     (let (out, rest) =
            process_data_packets (drop (8 + be_u32 (take 4 (drop 4 buf))) buf @ extra)
      in (dispatch (be_u32 (take 4 buf)) (take (be_u32 (take 4 (drop 4 buf))) (drop 8 buf)) @ out,
          rest))"
  using assms by (subst process_data_packets.simps) (simp add: Let_def)

lemma process_data_packets_append:
  "process_data_packets (buf @ extra) =
     (let (out, rest) = process_data_packets buf;
          (out', rest') = process_data_packets (rest @ extra)
      in (out @ out', rest'))"
proof (induction buf rule: process_data_packets.induct)
  case (1 buf)
  show ?case
  proof (cases "8 \<le> length buf \<and> 8 + be_u32 (take 4 (drop 4 buf)) \<le> length buf")
    case False
    then show ?thesis
      by (simp add: process_data_packets_incomplete)
  next
    case True
    define sz where "sz = be_u32 (take 4 (drop 4 buf))"
    from True have len: "8 \<le> length buf" "8 + sz \<le> length buf"
      by (auto simp: sz_def)
    have IH: "process_data_packets (drop (8 + sz) buf @ extra) =
       (let (out, rest) = process_data_packets (drop (8 + sz) buf);
            (out', rest') = process_data_packets (rest @ extra)
        in (out @ out', rest'))"
      using "1.IH"[OF _ refl refl _ refl] True by (simp add: sz_def)
    have whole: "process_data_packets (buf @ extra) =
       (let (out, rest) = process_data_packets (drop (8 + sz) buf @ extra)
        in (dispatch (be_u32 (take 4 buf)) (take sz (drop 8 buf)) @ out, rest))"
      using process_data_packets_complete[of buf extra] len by (simp add: sz_def)
    have part: "process_data_packets buf =
       (let (out, rest) = process_data_packets (drop (8 + sz) buf)
        in (dispatch (be_u32 (take 4 buf)) (take sz (drop 8 buf)) @ out, rest))"
      using process_data_packets_complete[of buf "[]"] len by (simp add: sz_def)
    show ?thesis
      unfolding whole part IH by (simp add: split_beta Let_def)
  qed
qed

lemma on_data_ready_read_packets:
  "fst (on_data_ready_read t1 t2 data srv) = fst (process_data_packets (read_buffer srv @ data))"
  "read_buffer (snd (on_data_ready_read t1 t2 data srv)) =
     snd (process_data_packets (read_buffer srv @ data))"
  by (simp_all add: on_data_ready_read_def Let_def split_beta)

lemma feed_chunks_whole:
  "fst (feed_chunks (c # chunks) srv) =
     fst (process_data_packets (read_buffer srv @ chunk_bytes (c # chunks))) \<and>
   read_buffer (snd (feed_chunks (c # chunks) srv)) =
     snd (process_data_packets (read_buffer srv @ chunk_bytes (c # chunks)))"
proof (induction chunks arbitrary: c srv)
  case Nil
  obtain t1 t2 d where c: "c = (t1, t2, d)" by (cases c)
  show ?case
    by (simp add: c chunk_bytes_def on_data_ready_read_packets split_beta Let_def)
next
  case (Cons c' chunks)
  obtain t1 t2 d where c: "c = (t1, t2, d)" by (cases c)
  define srv1 where "srv1 = snd (on_data_ready_read t1 t2 d srv)"
  have buf1: "read_buffer srv1 = snd (process_data_packets (read_buffer srv @ d))"
    by (simp add: srv1_def on_data_ready_read_packets)
  have bytes: "chunk_bytes (c # c' # chunks) = d @ chunk_bytes (c' # chunks)"
    by (simp add: c chunk_bytes_def)
  have split: "process_data_packets ((read_buffer srv @ d) @ chunk_bytes (c' # chunks)) =
     (let (out, rest) = process_data_packets (read_buffer srv @ d);
          (out', rest') = process_data_packets (rest @ chunk_bytes (c' # chunks))
      in (out @ out', rest'))"
    by (rule process_data_packets_append)
  have feed: "feed_chunks (c # c' # chunks) srv =
      (fst (on_data_ready_read t1 t2 d srv) @ fst (feed_chunks (c' # chunks) srv1),
       snd (feed_chunks (c' # chunks) srv1))"
    by (simp add: c srv1_def split_beta Let_def del: feed_chunks.simps(2))
       (simp add: split_beta Let_def)
  show ?case
    using Cons.IH[of c' srv1] split
    by (simp add: feed bytes buf1 on_data_ready_read_packets split_beta Let_def
             del: feed_chunks.simps)
qed


definition srv0 :: tcp_server where
  "srv0 = \<lparr>read_buffer = [], last_data_time = 0, last_packet_time = 0, current_delay_ms = 0\<rparr>"

text \<open>
  C2. Feeding a byte stream in chunks cut at arbitrary places hands out the same packets
  (same kinds, same payloads, same order) and leaves the same bytes buffered as feeding
  the concatenation of the chunks in one piece. While the buffer holds a header whose
  declared length needs more bytes than have arrived, the decoder hands out nothing and
  keeps every byte for the next call; there is no error branch.
\<close>

theorem chunked_feed_equals_whole_feed:
  "fst (feed_chunks (c # chunks) srv) =
     fst (on_data_ready_read t1 t2 (chunk_bytes (c # chunks)) srv) \<and>
   read_buffer (snd (feed_chunks (c # chunks) srv)) =
     read_buffer (snd (on_data_ready_read t1 t2 (chunk_bytes (c # chunks)) srv)) \<and>
   (8 \<le> length (read_buffer srv @ data) \<and>
    length (read_buffer srv @ data) < 8 + be_u32 (take 4 (drop 4 (read_buffer srv @ data))) \<longrightarrow>
      fst (on_data_ready_read t1 t2 data srv) = [] \<and>
      read_buffer (snd (on_data_ready_read t1 t2 data srv)) = read_buffer srv @ data)"
  using feed_chunks_whole[of c chunks srv]
  by (simp add: on_data_ready_read_packets process_data_packets_incomplete)

theorem chunked_feed_equals_whole_feed_witness:
  "fst (feed_chunks [(0, 0, [0, 0, 0, 1, 0, 0]), (1, 1, [0, 3, 7, 8]), (2, 2, [9, 0, 0])] srv0) =
     [CoordPacket [7, 8, 9]] \<and>
   read_buffer (snd (feed_chunks
      [(0, 0, [0, 0, 0, 1, 0, 0]), (1, 1, [0, 3, 7, 8]), (2, 2, [9, 0, 0])] srv0)) = [0, 0] \<and>
   8 \<le> length (read_buffer srv0 @ [0, 0, 0, 1, 0, 0, 0, 3, 7, 8 :: byte]) \<and>
   fst (on_data_ready_read 5 5 [0, 0, 0, 1, 0, 0, 0, 3, 7, 8] srv0) = [] \<and>
   read_buffer (snd (on_data_ready_read 5 5 [0, 0, 0, 1, 0, 0, 0, 3, 7, 8] srv0)) =
     [0, 0, 0, 1, 0, 0, 0, 3, 7, 8]"
  using chunked_feed_equals_whole_feed
          [of "(0, 0, [0, 0, 0, 1, 0, 0])" "[(1, 1, [0, 3, 7, 8]), (2, 2, [9, 0, 0])]" srv0 5 5
              "[0, 0, 0, 1, 0, 0, 0, 3, 7, 8]"]
  by (simp add: srv0_def chunk_bytes_def on_data_ready_read_packets be_u32_def dispatch_def
        process_data_packets.simps [of "[0, 0, 0, 1, 0, 0, 0, 3, 7, 8, 9, 0, 0]"]
        process_data_packets.simps [of "[0, 0]"])

section \<open>Sample accumulator (FrameBuffer.py)\<close>

text \<open>
  A frame is a grid of unsigned 8-bit values, stored as its rows. The buffer is a
  \<open>collections.deque\<close> with \<open>maxlen\<close>: appending to a full one drops the oldest entry.
  Python exceptions are values of \<open>py_error\<close>.
\<close>

datatype py_error = ValueError | IndexError | LinAlgError | ZeroDivisionError

type_synonym frame = "8 word list list"

definition FRAME_WIDTH :: nat where "FRAME_WIDTH = 64"
definition FRAME_HEIGHT :: nat where "FRAME_HEIGHT = 64"
definition MAX_RECORDED_FRAMES :: nat where "MAX_RECORDED_FRAMES = 99"

record frame_buffer =
  buffer :: "frame list"
  reference_frame :: "frame option"
  maxlen :: nat

definition new_frame_buffer :: frame_buffer where
  "new_frame_buffer = \<lparr>buffer = [], reference_frame = None, maxlen = MAX_RECORDED_FRAMES\<rparr>"

definition add_frame :: "frame \<Rightarrow> frame_buffer \<Rightarrow> frame_buffer" where
  "add_frame f fb =
     (let b = buffer fb @ [f] in fb\<lparr>buffer := drop (length b - maxlen fb) b\<rparr>)"

definition set_reference :: "frame \<Rightarrow> frame_buffer \<Rightarrow> frame_buffer" where
  "set_reference f fb = fb\<lparr>reference_frame := Some f\<rparr>"

definition clear_buffer :: "frame_buffer \<Rightarrow> frame_buffer" where
  "clear_buffer fb = fb\<lparr>buffer := [], reference_frame := None\<rparr>"

definition zeros_frame :: frame where
  "zeros_frame = replicate FRAME_HEIGHT (replicate FRAME_WIDTH 0)"

text \<open>
  \<open>np.mean(frames, axis=0).astype(np.uint8)\<close>: the mean is taken in float64 and the
  conversion to 8 bits cuts the fraction off. The pixel sums are whole numbers far below
  \<open>2^53\<close>, so the float quotient lies on the same side of every whole number as the
  exact one, and the stored value is the integer quotient. Frames of different shapes make
  \<open>np.mean\<close> raise \<open>ValueError\<close>.
\<close>

definition mean_pixel :: "frame list \<Rightarrow> nat \<Rightarrow> nat \<Rightarrow> 8 word" where
  "mean_pixel frames i j = of_nat ((\<Sum>f\<leftarrow>frames. unat (f ! i ! j)) div length frames)"

definition mean_axis0_uint8 :: "frame list \<Rightarrow> py_error + frame" where
  "mean_axis0_uint8 frames =
     (if \<forall>f \<in> set frames. map length f = map length (hd frames)
      then Inr (map (\<lambda>i. map (\<lambda>j. mean_pixel frames i j) [0..<length (hd frames ! i)])
                    [0..<length (hd frames)])
      else Inl ValueError)"

definition get_accumulated_frame :: "int \<Rightarrow> frame_buffer \<Rightarrow> py_error + frame" where
  "get_accumulated_frame accumulate_count fb =
     (if accumulate_count \<le> 1 \<or> buffer fb = []
      then Inr (if buffer fb \<noteq> [] then last (buffer fb) else zeros_frame)
      else (let count = min accumulate_count (int (length (buffer fb)))
            in mean_axis0_uint8 (drop (length (buffer fb) - nat count) (buffer fb))))"

definition is_frame :: "frame \<Rightarrow> bool" where
  "is_frame f = (map length f = replicate FRAME_HEIGHT FRAME_WIDTH)"

definition average_grid :: "frame list \<Rightarrow> frame" where
  "average_grid frames =
     map (\<lambda>i. map (\<lambda>j. mean_pixel frames i j) [0..<FRAME_WIDTH]) [0..<FRAME_HEIGHT]"

lemma mean_axis0_uint8_frames:
  assumes "frames \<noteq> []" "\<forall>f \<in> set frames. is_frame f"
  shows "mean_axis0_uint8 frames = Inr (average_grid frames)"
proof -
  have hd: "is_frame (hd frames)" using assms by simp
  have same: "\<forall>f \<in> set frames. map length f = map length (hd frames)"
    using assms hd by (simp add: is_frame_def)
  have rows: "length (hd frames) = FRAME_HEIGHT"
    using hd unfolding is_frame_def by (metis length_map length_replicate)
  have cols: "i < FRAME_HEIGHT \<Longrightarrow> length (hd frames ! i) = FRAME_WIDTH" for i
  proof -
    assume i: "i < FRAME_HEIGHT"
    have "map length (hd frames) ! i = FRAME_WIDTH"
      using hd i unfolding is_frame_def by simp
    then show ?thesis using i rows by simp
  qed
  show ?thesis
    using same by (simp add: mean_axis0_uint8_def average_grid_def rows cols)
qed

definition frame_of :: "8 word \<Rightarrow> frame" where
  "frame_of v = replicate FRAME_HEIGHT (replicate FRAME_WIDTH v)"

definition fb3 :: frame_buffer where
  "fb3 = \<lparr>buffer = [frame_of 1, frame_of 2, frame_of 5], reference_frame = None,
          maxlen = MAX_RECORDED_FRAMES\<rparr>"


lemma pixel_sum_bound:
  "(\<Sum>f\<leftarrow>frames. unat (f ! i ! j :: 8 word)) \<le> 255 * length frames"
proof (induction frames)
  case Nil
  then show ?case by simp
next
  case (Cons f frames)
  have "unat (f ! i ! j) < 2 ^ LENGTH(8)" by (rule unsigned_less)
  then have "unat (f ! i ! j) \<le> 255" by simp
  with Cons show ?case by simp
qed

lemma mean_pixel_floor:
  assumes "frames \<noteq> []"
  shows "int (unat (mean_pixel frames i j)) =
           \<lfloor>(\<Sum>f\<leftarrow>frames. real (unat (f ! i ! j))) / real (length frames)\<rfloor>"
proof -
  define s where "s = (\<Sum>f\<leftarrow>frames. unat (f ! i ! j))"
  define n where "n = length frames"
  have n: "0 < n" using assms by (simp add: n_def)
  have "s \<le> 255 * n" unfolding s_def n_def by (rule pixel_sum_bound)
  then have "s div n \<le> 255" using n
    by (metis div_le_mono div_mult_self_is_m mult.commute)
  then have small: "s div n < 2 ^ 8" by simp
  have u: "unat (of_nat (s div n) :: 8 word) = s div n"
    using small by (simp add: unat_of_nat)
  have rs: "(\<Sum>f\<leftarrow>frames. real (unat (f ! i ! j))) = real s"
    unfolding s_def by (induction frames) simp_all
  have fl: "\<lfloor>real s / real n\<rfloor> = int (s div n)"
    by (simp add: floor_divide_of_nat_eq)
  have "unat (mean_pixel frames i j) = s div n"
    unfolding mean_pixel_def s_def [symmetric] n_def [symmetric] by (rule u)
  then have "int (unat (mean_pixel frames i j)) = int (s div n)"
    by (simp only:)
  also have "\<dots> = \<lfloor>real s / real n\<rfloor>"
    by (simp only: fl)
  finally show ?thesis
    by (simp only: rs n_def)
qed

lemma average_grid_frame: "is_frame (average_grid frames)"
  by (simp add: is_frame_def average_grid_def comp_def map_replicate_const)

lemma average_grid_pixel:
  "i < 64 \<Longrightarrow> j < 64 \<Longrightarrow> average_grid frames ! i ! j = mean_pixel frames i j"
  by (simp add: average_grid_def FRAME_WIDTH_def FRAME_HEIGHT_def)

lemma is_frame_shape:
  "is_frame g \<Longrightarrow> length g = 64 \<and> (\<forall>row \<in> set g. length row = 64)"
proof -
  assume g: "is_frame g"
  then have m: "map length g = replicate 64 64"
    by (simp add: is_frame_def FRAME_WIDTH_def FRAME_HEIGHT_def)
  then have "length (map length g) = 64" by simp
  moreover have "\<forall>n \<in> set (map length g). n = 64" using m by simp
  ultimately show ?thesis by simp
qed

lemma accumulated_mean:
  assumes "frames \<noteq> []" "\<forall>f \<in> set frames. is_frame f"
  shows "\<exists>g. mean_axis0_uint8 frames = Inr g \<and>
           length g = 64 \<and> (\<forall>row \<in> set g. length row = 64) \<and>
           (\<forall>i<64. \<forall>j<64. int (unat (g ! i ! j)) =
              \<lfloor>(\<Sum>f\<leftarrow>frames. real (unat (f ! i ! j))) / real (length frames)\<rfloor>)"
  using mean_axis0_uint8_frames [OF assms] is_frame_shape [OF average_grid_frame, of frames]
    mean_pixel_floor [OF assms(1)]
  by (simp add: average_grid_pixel)


text \<open>
  C6, as amended. With \<open>accumulate_count \<le> 1\<close> or an empty buffer the result is the most
  recent frame, or the zero-filled 64x64 grid when the buffer is empty. Otherwise, on a
  buffer of 64x64 frames, it is a 64x64 grid whose every entry is the mean of that entry
  over the \<open>min accumulate_count (length buffer)\<close> most recent frames with the fraction cut
  off (the floor of the exact quotient), not rounded to the nearest value. On the buffer
  \<open>[A, B, C]\<close>: count 1 gives \<open>C\<close>, count 2 the cut-off mean of \<open>B\<close> and \<open>C\<close>, count 10 the
  cut-off mean of all three.
\<close>

theorem get_accumulated_frame_truncated_mean:
  "(accumulate_count \<le> 1 \<or> buffer fb = [] \<longrightarrow>
      get_accumulated_frame accumulate_count fb =
        Inr (if buffer fb = [] then replicate 64 (replicate 64 0) else last (buffer fb))) \<and>
   (1 < accumulate_count \<and> buffer fb \<noteq> [] \<and> (\<forall>f \<in> set (buffer fb). is_frame f) \<longrightarrow>
      (\<exists>g. get_accumulated_frame accumulate_count fb = Inr g \<and>
         length g = 64 \<and> (\<forall>row \<in> set g. length row = 64) \<and>
         (\<forall>i<64. \<forall>j<64. int (unat (g ! i ! j)) =
            \<lfloor>(\<Sum>f\<leftarrow>drop (length (buffer fb) - min (nat accumulate_count) (length (buffer fb)))
                       (buffer fb). real (unat (f ! i ! j))) /
             real (min (nat accumulate_count) (length (buffer fb)))\<rfloor>))) \<and>
   (buffer fb = [A, B, C] \<and> is_frame A \<and> is_frame B \<and> is_frame C \<longrightarrow>
      get_accumulated_frame 1 fb = Inr C \<and>
      (\<exists>g. get_accumulated_frame 2 fb = Inr g \<and>
         length g = 64 \<and> (\<forall>row \<in> set g. length row = 64) \<and>
         (\<forall>i<64. \<forall>j<64. int (unat (g ! i ! j)) =
            \<lfloor>(real (unat (B ! i ! j)) + real (unat (C ! i ! j))) / 2\<rfloor>)) \<and>
      (\<exists>g. get_accumulated_frame 10 fb = Inr g \<and>
         length g = 64 \<and> (\<forall>row \<in> set g. length row = 64) \<and>
         (\<forall>i<64. \<forall>j<64. int (unat (g ! i ! j)) =
            \<lfloor>(real (unat (A ! i ! j)) + real (unat (B ! i ! j)) + real (unat (C ! i ! j))) / 3\<rfloor>)))"
proof (intro conjI impI)
  assume "accumulate_count \<le> 1 \<or> buffer fb = []"
  then show "get_accumulated_frame accumulate_count fb =
        Inr (if buffer fb = [] then replicate 64 (replicate 64 0) else last (buffer fb))"
    by (auto simp: get_accumulated_frame_def zeros_frame_def FRAME_WIDTH_def FRAME_HEIGHT_def)
next
  assume a: "1 < accumulate_count \<and> buffer fb \<noteq> [] \<and> (\<forall>f \<in> set (buffer fb). is_frame f)"
  define k where "k = min (nat accumulate_count) (length (buffer fb))"
  define recent where "recent = drop (length (buffer fb) - k) (buffer fb)"
  have k: "nat (min accumulate_count (int (length (buffer fb)))) = k"
    using a unfolding k_def min_def by (simp; linarith)
  have "0 < k" "0 < length (buffer fb)" using a by (simp_all add: k_def)
  then have "length (buffer fb) - k < length (buffer fb)" by (rule diff_less)
  then have ne: "recent \<noteq> []"
    by (simp add: recent_def)
  have fr: "\<forall>f \<in> set recent. is_frame f"
    using a unfolding recent_def by (meson in_set_dropD)
  have len: "length recent = k"
    by (simp add: recent_def k_def)
  have run: "get_accumulated_frame accumulate_count fb = mean_axis0_uint8 recent"
    using a by (simp add: get_accumulated_frame_def Let_def k recent_def)
  from accumulated_mean [OF ne fr]
  show "\<exists>g. get_accumulated_frame accumulate_count fb = Inr g \<and>
         length g = 64 \<and> (\<forall>row \<in> set g. length row = 64) \<and>
         (\<forall>i<64. \<forall>j<64. int (unat (g ! i ! j)) =
            \<lfloor>(\<Sum>f\<leftarrow>drop (length (buffer fb) - min (nat accumulate_count) (length (buffer fb)))
                       (buffer fb). real (unat (f ! i ! j))) /
             real (min (nat accumulate_count) (length (buffer fb)))\<rfloor>)"
    unfolding run len k_def [symmetric] recent_def [symmetric] .
next
  assume a: "buffer fb = [A, B, C] \<and> is_frame A \<and> is_frame B \<and> is_frame C"
  show "get_accumulated_frame 1 fb = Inr C"
    using a by (simp add: get_accumulated_frame_def)
  have two: "get_accumulated_frame 2 fb = mean_axis0_uint8 [B, C]"
    using a by (simp add: get_accumulated_frame_def Let_def)
  have three: "get_accumulated_frame 10 fb = mean_axis0_uint8 [A, B, C]"
    using a by (simp add: get_accumulated_frame_def Let_def)
  from accumulated_mean [of "[B, C]"] a
  show "\<exists>g. get_accumulated_frame 2 fb = Inr g \<and>
         length g = 64 \<and> (\<forall>row \<in> set g. length row = 64) \<and>
         (\<forall>i<64. \<forall>j<64. int (unat (g ! i ! j)) =
            \<lfloor>(real (unat (B ! i ! j)) + real (unat (C ! i ! j))) / 2\<rfloor>)"
    unfolding two by simp
  from accumulated_mean [of "[A, B, C]"] a
  show "\<exists>g. get_accumulated_frame 10 fb = Inr g \<and>
         length g = 64 \<and> (\<forall>row \<in> set g. length row = 64) \<and>
         (\<forall>i<64. \<forall>j<64. int (unat (g ! i ! j)) =
            \<lfloor>(real (unat (A ! i ! j)) + real (unat (B ! i ! j)) + real (unat (C ! i ! j))) / 3\<rfloor>)"
    unfolding three by (simp add: add.assoc)
qed

theorem get_accumulated_frame_truncated_mean_witness:
  "buffer fb3 = [frame_of 1, frame_of 2, frame_of 5] \<and>
   is_frame (frame_of 1) \<and> is_frame (frame_of 2) \<and> is_frame (frame_of 5) \<and>
   get_accumulated_frame 1 fb3 = Inr (frame_of 5) \<and>
   (\<exists>g. get_accumulated_frame 2 fb3 = Inr g \<and> length g = 64 \<and> unat (g ! 0 ! 0) = 3) \<and>
   (\<exists>g. get_accumulated_frame 10 fb3 = Inr g \<and> length g = 64 \<and> unat (g ! 63 ! 63) = 2)"
proof -
  have shapes: "is_frame (frame_of 1)" "is_frame (frame_of 2)" "is_frame (frame_of 5)"
    by (simp_all add: is_frame_def frame_of_def)
  have px: "frame_of v ! 0 ! 0 = v" "frame_of v ! 63 ! 63 = v" for v
    by (simp_all add: frame_of_def FRAME_WIDTH_def FRAME_HEIGHT_def)
  have buf: "buffer fb3 = [frame_of 1, frame_of 2, frame_of 5]"
    by (simp add: fb3_def)
  from get_accumulated_frame_truncated_mean
         [of 2 fb3 "frame_of 1" "frame_of 2" "frame_of 5"] buf shapes
  obtain g2 g3 where g:
    "get_accumulated_frame 1 fb3 = Inr (frame_of 5)"
    "get_accumulated_frame 2 fb3 = Inr g2" "length g2 = 64"
    "\<forall>i<64. \<forall>j<64. int (unat (g2 ! i ! j)) =
        \<lfloor>(real (unat (frame_of 2 ! i ! j)) + real (unat (frame_of 5 ! i ! j))) / 2\<rfloor>"
    "get_accumulated_frame 10 fb3 = Inr g3" "length g3 = 64"
    "\<forall>i<64. \<forall>j<64. int (unat (g3 ! i ! j)) =
        \<lfloor>(real (unat (frame_of 1 ! i ! j)) + real (unat (frame_of 2 ! i ! j)) +
           real (unat (frame_of 5 ! i ! j))) / 3\<rfloor>"
    by auto
  have "int (unat (g2 ! 0 ! 0)) = \<lfloor>(2 + 5) / 2 :: real\<rfloor>"
    using g(4) [rule_format, of 0 0] by (simp add: px)
  moreover have "\<lfloor>(2 + 5) / 2 :: real\<rfloor> = 3" by simp
  ultimately have p2: "unat (g2 ! 0 ! 0) = 3" by linarith
  have "int (unat (g3 ! 63 ! 63)) = \<lfloor>(1 + 2 + 5) / 3 :: real\<rfloor>"
    using g(7) [rule_format, of 63 63] by (simp add: px)
  moreover have "\<lfloor>(1 + 2 + 5) / 3 :: real\<rfloor> = 2" by simp
  ultimately have p3: "unat (g3 ! 63 ! 63) = 2" by linarith
  show ?thesis
    using buf shapes g(1,2,3,5,6) p2 p3 by simp
qed

text \<open>
  C6, as stated, fails where the mean has a fraction of one half or more: on the buffer
  of the frames filled with 1, 2 and 5, count 2 gives 3 where 7 / 2 rounds to 4, and
  count 10 gives 2 where 8 / 3 rounds to 3.
\<close>

theorem accumulated_mean_counterexample:
  "unat (projr (get_accumulated_frame 2 fb3) ! 0 ! 0) = 3 \<and>
   round ((real (unat (frame_of 2 ! 0 ! 0)) + real (unat (frame_of 5 ! 0 ! 0))) / 2) = 4 \<and>
   unat (projr (get_accumulated_frame 10 fb3) ! 0 ! 0) = 2 \<and>
   round ((real (unat (frame_of 1 ! 0 ! 0)) + real (unat (frame_of 2 ! 0 ! 0)) +
           real (unat (frame_of 5 ! 0 ! 0))) / 3) = 3"
proof -
  have shapes: "\<forall>f \<in> set [frame_of 2, frame_of 5]. is_frame f"
    "\<forall>f \<in> set [frame_of 1, frame_of 2, frame_of 5]. is_frame f"
    by (simp_all add: is_frame_def frame_of_def)
  have px: "frame_of v ! 0 ! 0 = v" for v
    by (simp add: frame_of_def FRAME_WIDTH_def FRAME_HEIGHT_def)
  have two: "get_accumulated_frame 2 fb3 = mean_axis0_uint8 [frame_of 2, frame_of 5]"
    by (simp add: get_accumulated_frame_def Let_def fb3_def)
  have three: "get_accumulated_frame 10 fb3 =
      mean_axis0_uint8 [frame_of 1, frame_of 2, frame_of 5]"
    by (simp add: get_accumulated_frame_def Let_def fb3_def)
  from accumulated_mean [OF _ shapes(1)]
  obtain g2 where g2: "mean_axis0_uint8 [frame_of 2, frame_of 5] = Inr g2"
    "\<forall>i<64. \<forall>j<64. int (unat (g2 ! i ! j)) =
        \<lfloor>(\<Sum>f\<leftarrow>[frame_of 2, frame_of 5]. real (unat (f ! i ! j))) /
         real (length [frame_of 2, frame_of 5])\<rfloor>"
    by auto
  from accumulated_mean [OF _ shapes(2)]
  obtain g3 where g3: "mean_axis0_uint8 [frame_of 1, frame_of 2, frame_of 5] = Inr g3"
    "\<forall>i<64. \<forall>j<64. int (unat (g3 ! i ! j)) =
        \<lfloor>(\<Sum>f\<leftarrow>[frame_of 1, frame_of 2, frame_of 5]. real (unat (f ! i ! j))) /
         real (length [frame_of 1, frame_of 2, frame_of 5])\<rfloor>"
    by auto
  have "int (unat (g2 ! 0 ! 0)) = \<lfloor>(2 + 5) / 2 :: real\<rfloor>"
    using g2(2) [rule_format, of 0 0] by (simp add: px)
  moreover have "\<lfloor>(2 + 5) / 2 :: real\<rfloor> = 3" by simp
  ultimately have p2: "unat (g2 ! 0 ! 0) = 3" by linarith
  have "int (unat (g3 ! 0 ! 0)) = \<lfloor>(1 + 2 + 5) / 3 :: real\<rfloor>"
    using g3(2) [rule_format, of 0 0] by (simp add: px)
  moreover have "\<lfloor>(1 + 2 + 5) / 3 :: real\<rfloor> = 2" by simp
  ultimately have p3: "unat (g3 ! 0 ! 0) = 2" by linarith
  have r: "round ((2 + 5) / 2 :: real) = 4" "round ((1 + 2 + 5) / 3 :: real) = 3"
    by (simp_all add: round_def)
  show ?thesis
    using p2 p3 r by (simp add: two three g2(1) g3(1) px)
qed


section \<open>Pose estimator (CoorDroneWidget.py, class CoordinatePredictor)\<close>

text \<open>
  Arrays of float64 are lists of reals (a matrix is the list of its rows); arithmetic is
  exact. The record fields \<open>kf_A\<close>, \<open>kf_R\<close>, \<open>kf_x\<close>, \<open>kf_P\<close> are the attributes \<open>A\<close>, \<open>R\<close>,
  \<open>x\<close>, \<open>P\<close> of the class. \<open>log_callback\<close> tells whether a callback is installed and
  \<open>log_out\<close> collects what is handed to it.
\<close>

type_synonym vec = "real list"
type_synonym mat = "real list list"

definition COORD_DIMENSION :: nat where "COORD_DIMENSION = 12"

definition zeros :: "nat \<Rightarrow> vec" where
  "zeros n = replicate n 0"

definition eye :: "nat \<Rightarrow> mat" where
  "eye n = map (\<lambda>i. map (\<lambda>j. if i = j then 1 else 0) [0..<n]) [0..<n]"

definition dot :: "vec \<Rightarrow> vec \<Rightarrow> real" where
  "dot u v = sum_list (map2 (*) u v)"

definition mat_T :: "mat \<Rightarrow> mat" where
  "mat_T M = map (\<lambda>j. map (\<lambda>row. row ! j) M) [0..<length (hd M)]"

definition mat_vec :: "mat \<Rightarrow> vec \<Rightarrow> vec" where
  "mat_vec M v = map (\<lambda>row. dot row v) M"

definition mat_mul :: "mat \<Rightarrow> mat \<Rightarrow> mat" where
  "mat_mul M N = map (\<lambda>row. map (\<lambda>col. dot row col) (mat_T N)) M"

definition mat_add :: "mat \<Rightarrow> mat \<Rightarrow> mat" where
  "mat_add M N = map2 (map2 (+)) M N"

definition mat_sub :: "mat \<Rightarrow> mat \<Rightarrow> mat" where
  "mat_sub M N = map2 (map2 (-)) M N"

definition mat_scale :: "mat \<Rightarrow> real \<Rightarrow> mat" where
  "mat_scale M c = map (map (\<lambda>v. v * c)) M"

definition vec_add :: "vec \<Rightarrow> vec \<Rightarrow> vec" where
  "vec_add u v = map2 (+) u v"

definition vec_sub :: "vec \<Rightarrow> vec \<Rightarrow> vec" where
  "vec_sub u v = map2 (-) u v"

text \<open>
  \<open>np.linalg.inv\<close> in exact arithmetic: Gauss-Jordan elimination on \<open>[M | I]\<close>, taking in each
  column the first row at or below the diagonal with a non-zero entry as the pivot row.
  When a column has no pivot the matrix is singular and \<open>LinAlgError\<close> is raised.
\<close>

definition swap_rows :: "nat \<Rightarrow> nat \<Rightarrow> mat \<Rightarrow> mat" where
  "swap_rows i j M = M[i := M ! j, j := M ! i]"

definition eliminate :: "nat \<Rightarrow> mat \<Rightarrow> mat" where
  "eliminate c M =
     (let prow = map (\<lambda>v. v / (M ! c ! c)) (M ! c)
      in map (\<lambda>i. if i = c then prow
                   else map2 (\<lambda>v pv. v - (M ! i ! c) * pv) (M ! i) prow) [0..<length M])"

fun gauss_jordan :: "nat list \<Rightarrow> mat \<Rightarrow> mat option" where
  "gauss_jordan [] M = Some M"
| "gauss_jordan (c # cs) M =
     (case List.find (\<lambda>r. M ! r ! c \<noteq> 0) [c..<length M] of
        None \<Rightarrow> None
      | Some r \<Rightarrow> gauss_jordan cs (eliminate c (swap_rows c r M)))"

definition linalg_inv :: "mat \<Rightarrow> py_error + mat" where
  "linalg_inv M =
     (let n = length M
      in if \<exists>row \<in> set M. length row \<noteq> n then Inl LinAlgError
         else (case gauss_jordan [0..<n] (map2 (@) M (eye n)) of
                 None \<Rightarrow> Inl LinAlgError
               | Some G \<Rightarrow> Inr (map (drop n) G)))"


text \<open>The constant matrices set once in \<open>__init__\<close> and never assigned again.\<close>

definition state_dim :: nat where "state_dim = COORD_DIMENSION"

definition H :: mat where
  "H = map (\<lambda>i. map (\<lambda>j. if i = j then 1 else 0) [0..<state_dim]) [0..<6]"

definition Q :: mat where "Q = mat_scale (eye state_dim) 0.1"

definition R_base :: mat where "R_base = mat_scale (eye 6) 1.0"

datatype kf_msg =
    MsgLengthError nat
  | MsgFpsUpdated real bool
  | MsgFixedDt real real
  | MsgMeasuredDt real real
  | MsgFirstUpdate real
  | MsgFresh
  | MsgRepeated
  | MsgPredicted real real real
  | MsgMeasurement real real real
  | MsgUpdated real real real real real real

record coordinate_predictor =
  kf_A :: mat
  kf_R :: mat
  kf_x :: vec
  kf_P :: mat
  last_update_time :: "real option"
  state_history :: "vec list"
  current_fps :: real
  default_dt :: real
  use_fixed_fps :: bool
  log_callback :: bool
  log_out :: "kf_msg list"

definition kf_log :: "kf_msg \<Rightarrow> coordinate_predictor \<Rightarrow> coordinate_predictor" where
  "kf_log m p = (if log_callback p then p\<lparr>log_out := log_out p @ [m]\<rparr> else p)"

definition new_predictor :: "real \<Rightarrow> py_error + coordinate_predictor" where
  "new_predictor initial_fps =
     (if initial_fps = 0 then Inl ZeroDivisionError
      else Inr \<lparr>kf_A = eye state_dim, kf_R = R_base, kf_x = zeros state_dim,
                kf_P = mat_scale (eye state_dim) 100.0, last_update_time = None,
                state_history = [], current_fps = initial_fps, default_dt = 1.0 / initial_fps,
                use_fixed_fps = True, log_callback = False, log_out = []\<rparr>)"

definition set_fps :: "real \<Rightarrow> bool option \<Rightarrow> coordinate_predictor \<Rightarrow> coordinate_predictor" where
  "set_fps fps use_fixed p =
     (if fps \<le> 0 then p
      else (let p1 = p\<lparr>current_fps := fps, default_dt := 1.0 / fps\<rparr>;
                p2 = (case use_fixed of None \<Rightarrow> p1 | Some m \<Rightarrow> p1\<lparr>use_fixed_fps := m\<rparr>)
            in kf_log (MsgFpsUpdated fps (use_fixed_fps p2)) p2))"

definition reset :: "coordinate_predictor \<Rightarrow> coordinate_predictor" where
  "reset p = p\<lparr>kf_x := zeros state_dim, kf_P := mat_scale (eye state_dim) 100.0,
               last_update_time := None, state_history := [], kf_R := R_base,
               use_fixed_fps := True\<rparr>"

definition set_dt :: "real \<Rightarrow> mat \<Rightarrow> mat" where
  "set_dt dt M = fold (\<lambda>i M'. M'[i := (M' ! i)[i + 6 := dt]]) [0..<6] M"

definition deque_append :: "nat \<Rightarrow> 'a \<Rightarrow> 'a list \<Rightarrow> 'a list" where
  "deque_append n v xs = (let ys = xs @ [v] in drop (length ys - n) ys)"

definition choose_dt :: "real \<Rightarrow> coordinate_predictor \<Rightarrow> real \<times> kf_msg" where
  "choose_dt timestamp p =
     (if use_fixed_fps p then (default_dt p, MsgFixedDt (default_dt p) (current_fps p))
      else (case last_update_time p of
              Some t \<Rightarrow> (let dt = timestamp - t
                         in (dt, MsgMeasuredDt dt (if dt > 0 then 1 / dt else 0)))
            | None \<Rightarrow> (default_dt p, MsgFirstUpdate (default_dt p))))"

text \<open>
  \<open>update\<close>, first half: the length check has passed; choose \<open>dt\<close>, write it into the six
  entries \<open>A[i, i + 6]\<close>, record the timestamp, and choose the measurement noise \<open>R\<close>.
\<close>

definition prepare :: "real \<Rightarrow> bool \<Rightarrow> coordinate_predictor \<Rightarrow> coordinate_predictor" where
  "prepare timestamp is_coord_updated p =
     (let (dt, dt_msg) = choose_dt timestamp p;
          p1 = kf_log dt_msg p;
          p2 = p1\<lparr>kf_A := set_dt dt (kf_A p1), last_update_time := Some timestamp\<rparr>
      in if is_coord_updated then kf_log MsgFresh (p2\<lparr>kf_R := R_base\<rparr>)
         else kf_log MsgRepeated (p2\<lparr>kf_R := mat_scale R_base 100.0\<rparr>))"

text \<open>
  \<open>update\<close>, second half: the prediction step and the correction step, reading \<open>A\<close>, \<open>R\<close>,
  \<open>x\<close> and \<open>P\<close> from the object. \<open>np.linalg.inv\<close> raises \<open>LinAlgError\<close> on a singular \<open>S\<close>.
\<close>

definition kalman_step :: "vec \<Rightarrow> coordinate_predictor \<Rightarrow> py_error + coordinate_predictor" where
  "kalman_step measurement p =
     (let x_prior = mat_vec (kf_A p) (kf_x p);
          P_prior = mat_add (mat_mul (mat_mul (kf_A p) (kf_P p)) (mat_T (kf_A p))) Q;
          p1 = kf_log (MsgPredicted (x_prior ! 0) (x_prior ! 1) (x_prior ! 2)) p;
          z = measurement;
          y = vec_sub z (mat_vec H x_prior);
          S = mat_add (mat_mul (mat_mul H P_prior) (mat_T H)) (kf_R p1)
      in case linalg_inv S of
           Inl e \<Rightarrow> Inl e
         | Inr S_inv \<Rightarrow>
             (let K = mat_mul (mat_mul P_prior (mat_T H)) S_inv;
                  x' = vec_add x_prior (mat_vec K y);
                  P' = mat_mul (mat_sub (eye state_dim) (mat_mul K H)) P_prior;
                  p2 = p1\<lparr>kf_x := x', kf_P := P',
                          state_history := deque_append 10 x' (state_history p1)\<rparr>;
                  p3 = kf_log (MsgMeasurement (z ! 0) (z ! 1) (z ! 2)) p2
              in Inr (kf_log (MsgUpdated (x' ! 0) (x' ! 1) (x' ! 2) (x' ! 6) (x' ! 7) (x' ! 8))
                        p3)))"

definition update ::
  "vec \<Rightarrow> real \<Rightarrow> bool \<Rightarrow> coordinate_predictor \<Rightarrow> py_error + coordinate_predictor" where
  "update measurement timestamp is_coord_updated p =
     (if length measurement \<noteq> 6 then Inr (kf_log (MsgLengthError (length measurement)) p)
      else kalman_step measurement (prepare timestamp is_coord_updated p))"

definition get_current_state :: "coordinate_predictor \<Rightarrow> vec" where
  "get_current_state p = kf_x p"

definition blk :: "real \<Rightarrow> real \<Rightarrow> real \<Rightarrow> mat" where
  "blk a b c = map (\<lambda>i. map (\<lambda>j. if i = j then (if i < 6 then a else c)
                                else if j = i + 6 \<or> i = j + 6 then b else 0) [0..<12]) [0..<12]"

definition mkA :: "real \<Rightarrow> mat" where
  "mkA d = map (\<lambda>i. map (\<lambda>j. if i = j then 1 else if j = i + 6 then d else 0) [0..<12]) [0..<12]"

subsection \<open>Evaluating the matrix operations\<close>

lemma upt6: "[0..<6] = [0,1,2,3,4,5]"
  by (simp add: upt_rec)

lemma upt12: "[0..<12] = [0,1,2,3,4,5,6,7,8,9,10,11]"
  by (simp add: upt_rec)

lemma upt_to6: "[1..<6] = [1,2,3,4,5]" "[2..<6] = [2,3,4,5]" "[3..<6] = [3,4,5]"
   "[4..<6] = [4,5]" "[5..<6] = [5]"
  by (simp_all add: upt_rec)

lemmas mat_defs = mat_add_def mat_sub_def mat_mul_def mat_T_def mat_scale_def eye_def dot_def
  H_def Q_def R_base_def state_dim_def COORD_DIMENSION_def upt6 upt12

lemma linalg_inv_examples:
  "linalg_inv [[0, 2], [1, 1]] = Inr [[- 1 / 2, 1], [1 / 2, 0]]"
  "linalg_inv [[1, 2], [2, 4]] = Inl LinAlgError"
  by (simp_all add: linalg_inv_def eye_def upt_rec swap_rows_def eliminate_def Let_def)

lemma linalg_inv_scalar:
  assumes "s \<noteq> 0"
  shows "linalg_inv (mat_scale (eye 6) s) = Inr (mat_scale (eye 6) (1 / s))"
  using assms
  by (simp add: linalg_inv_def mat_scale_def eye_def upt6 upt_to6 swap_rows_def eliminate_def Let_def)

lemma set_dt_mkA: "set_dt dt (mkA d) = mkA dt"
  by (simp add: set_dt_def mkA_def upt6 upt12)

lemma eye_mkA: "eye state_dim = mkA 0"
  by (simp add: mkA_def mat_defs)

lemma init_P_blk: "mat_scale (eye state_dim) 100 = blk 100 0 100"
  by (simp add: blk_def mat_defs)

lemma predict_blk:
  "mat_add (mat_mul (mat_mul (mkA d) (blk a b c)) (mat_T (mkA d))) Q =
     blk (a + d * b + d * (b + d * c) + 0.1) (b + d * c) (c + 0.1)"
  by (simp add: mkA_def blk_def mat_defs)

lemma innovation_cov_blk:
  "mat_add (mat_mul (mat_mul H (blk a b c)) (mat_T H)) (mat_scale (eye 6) r) =
     mat_scale (eye 6) (a + r)"
  by (simp add: blk_def mat_defs)

lemma R_base_scalar: "R_base = mat_scale (eye 6) 1" "mat_scale R_base 100.0 = mat_scale (eye 6) 100"
  by (simp_all add: mat_defs)

lemma correct_blk:
  "mat_mul (mat_sub (eye state_dim)
              (mat_mul (mat_mul (mat_mul (blk a b c) (mat_T H)) (mat_scale (eye 6) g)) H))
           (blk a b c) =
     blk ((1 - a * g) * a) ((1 - a * g) * b) (c - b * g * b)"
  by (simp add: blk_def mat_defs algebra_simps)


subsection \<open>The covariance keeps its block form\<close>

definition kf_ok :: "coordinate_predictor \<Rightarrow> bool" where
  "kf_ok p =
     (kf_A p = mkA (kf_A p ! 0 ! 6) \<and>
      kf_P p = blk (kf_P p ! 0 ! 0) (kf_P p ! 0 ! 6) (kf_P p ! 6 ! 6) \<and>
      0 \<le> kf_P p ! 0 ! 0 \<and> 0 \<le> kf_P p ! 6 ! 6 \<and>
      (kf_P p ! 0 ! 6) * (kf_P p ! 0 ! 6) \<le> (kf_P p ! 0 ! 0) * (kf_P p ! 6 ! 6))"

lemma mkA_entry: "mkA d ! 0 ! 6 = d"
  by (simp add: mkA_def upt12)

lemma blk_entries: "blk a b c ! 0 ! 0 = a" "blk a b c ! 0 ! 6 = b" "blk a b c ! 6 ! 6 = c"
  by (simp_all add: blk_def upt12)

lemma kf_okI:
  "kf_A p = mkA d \<Longrightarrow> kf_P p = blk a b c \<Longrightarrow> 0 \<le> a \<Longrightarrow> 0 \<le> c \<Longrightarrow> b * b \<le> a * c \<Longrightarrow> kf_ok p"
  by (simp add: kf_ok_def mkA_entry blk_entries)

lemma kf_okE:
  assumes "kf_ok p"
  obtains d a b c where "kf_A p = mkA d" "kf_P p = blk a b c" "0 \<le> a" "0 \<le> c" "b * b \<le> a * c"
  using assms unfolding kf_ok_def by blast

lemma quad_form_nonneg:
  fixes a b c d :: real
  assumes "0 \<le> a" "0 \<le> c" "b * b \<le> a * c"
  shows "0 \<le> a + d * b + d * (b + d * c)"
proof (cases "c = 0")
  case True
  with assms have "b * b \<le> 0" by simp
  then have "b = 0" by (auto simp: mult_le_0_iff)
  with True assms show ?thesis by simp
next
  case False
  with assms have c: "0 < c" by simp
  have "c * (a + d * b + d * (b + d * c)) = (a * c - b * b) + (b + d * c) * (b + d * c)"
    by (simp add: algebra_simps)
  also have "0 \<le> (a * c - b * b) + (b + d * c) * (b + d * c)"
    using assms by simp
  finally have "0 \<le> c * (a + d * b + d * (b + d * c))" by simp
  with c show ?thesis by (simp add: zero_le_mult_iff)
qed

lemma psd_predict:
  fixes a b c d :: real
  assumes "0 \<le> a" "0 \<le> c" "b * b \<le> a * c"
  defines "a' \<equiv> a + d * b + d * (b + d * c) + 0.1"
    and "b' \<equiv> b + d * c" and "c' \<equiv> c + 0.1"
  shows "0 < a'" "0 \<le> c'" "b' * b' \<le> a' * c'"
proof -
  have q: "0 \<le> a + d * b + d * (b + d * c)"
    using assms(1-3) by (rule quad_form_nonneg)
  show "0 < a'" using q by (simp add: a'_def)
  show "0 \<le> c'" using assms by (simp add: c'_def)
  have "a' * c' - b' * b' =
      (a * c - b * b) + 0.1 * (a + d * b + d * (b + d * c)) + 0.1 * c + 0.01"
    by (simp add: a'_def b'_def c'_def algebra_simps)
  also have "0 \<le> (a * c - b * b) + 0.1 * (a + d * b + d * (b + d * c)) + 0.1 * c + 0.01"
    using q assms by simp
  finally show "b' * b' \<le> a' * c'" by simp
qed

lemma psd_correct:
  fixes a b c r :: real
  assumes "0 < a" "0 \<le> c" "b * b \<le> a * c" "0 < r"
  defines "g \<equiv> 1 / (a + r)"
  shows "0 \<le> (1 - a * g) * a" "0 \<le> c - b * g * b"
    "((1 - a * g) * b) * ((1 - a * g) * b) \<le> ((1 - a * g) * a) * (c - b * g * b)"
proof -
  have s: "0 < a + r" using assms by simp
  have unit: "(a + r) * g = 1"
    using s by (simp add: g_def)
  then have sum1: "a * g + r * g = 1"
    by (simp add: algebra_simps)
  then have k: "1 - a * g = r * g"
    by simp
  have g: "0 < g" using s by (simp add: g_def)
  have rg: "0 < r * g" using g assms by simp
  show "0 \<le> (1 - a * g) * a"
    unfolding k using rg assms by simp
  have bb: "b * b * g \<le> a * c * g"
    using assms(3) g by (simp add: mult_right_mono)
  have "a * c * g \<le> c"
    using s assms by (simp add: g_def field_simps)
  with bb have "b * b * g \<le> c" by simp
  then show "0 \<le> c - b * g * b" by (simp add: algebra_simps)
  have "((1 - a * g) * a) * (c - b * g * b) - ((1 - a * g) * b) * ((1 - a * g) * b) =
        (r * g) * (a * c - b * b * (a * g + r * g))"
    unfolding k by (simp add: algebra_simps)
  then have "((1 - a * g) * a) * (c - b * g * b) - ((1 - a * g) * b) * ((1 - a * g) * b) =
        (r * g) * (a * c - b * b)"
    by (simp add: sum1)
  moreover have "0 \<le> (r * g) * (a * c - b * b)"
    using rg assms(3) by simp
  ultimately show "((1 - a * g) * b) * ((1 - a * g) * b) \<le> ((1 - a * g) * a) * (c - b * g * b)"
    by simp
qed


lemma kf_log_fields [simp]:
  "kf_A (kf_log m p) = kf_A p" "kf_R (kf_log m p) = kf_R p" "kf_x (kf_log m p) = kf_x p"
  "kf_P (kf_log m p) = kf_P p" "last_update_time (kf_log m p) = last_update_time p"
  "state_history (kf_log m p) = state_history p" "current_fps (kf_log m p) = current_fps p"
  "default_dt (kf_log m p) = default_dt p" "use_fixed_fps (kf_log m p) = use_fixed_fps p"
  "log_callback (kf_log m p) = log_callback p"
  by (simp_all add: kf_log_def)

lemma kf_ok_cong:
  "kf_A p' = kf_A p \<Longrightarrow> kf_P p' = kf_P p \<Longrightarrow> kf_ok p' = kf_ok p"
  by (simp add: kf_ok_def)

lemma kf_ok_log: "kf_ok (kf_log m p) = kf_ok p"
  by (simp add: kf_ok_def)

lemma update_wrong_length:
  "length measurement \<noteq> 6 \<Longrightarrow>
   update measurement timestamp is_coord_updated p =
     Inr (kf_log (MsgLengthError (length measurement)) p)"
  by (simp add: update_def)

lemma update_on_blk:
  fixes t :: real and fresh :: bool
  assumes len: "length z = 6"
    and A: "kf_A p = mkA d" and P: "kf_P p = blk a b c"
    and psd: "0 \<le> a" "0 \<le> c" "b * b \<le> a * c"
  defines "dt \<equiv> fst (choose_dt t p)"
    and "r \<equiv> (if fresh then 1 else 100 :: real)"
  defines "a' \<equiv> a + dt * b + dt * (b + dt * c) + 0.1"
    and "b' \<equiv> b + dt * c" and "c' \<equiv> c + 0.1"
  defines "g \<equiv> 1 / (a' + r)"
  shows "\<exists>p'. update z t fresh p = Inr p' \<and>
           kf_A p' = mkA dt \<and>
           kf_P p' = blk ((1 - a' * g) * a') ((1 - a' * g) * b') (c' - b' * g * b') \<and>
           kf_R p' = (if fresh then R_base else mat_scale R_base 100.0) \<and>
           kf_x p' = vec_add (mat_vec (mkA dt) (kf_x p))
                       (mat_vec (mat_mul (mat_mul (blk a' b' c') (mat_T H)) (mat_scale (eye 6) g))
                          (vec_sub z (mat_vec H (mat_vec (mkA dt) (kf_x p))))) \<and>
           last_update_time p' = Some t \<and>
           current_fps p' = current_fps p \<and> default_dt p' = default_dt p \<and>
           use_fixed_fps p' = use_fixed_fps p \<and> log_callback p' = log_callback p"
proof -
  have pos: "0 < a'"
    unfolding a'_def using psd by (rule psd_predict(1))
  have nz: "a' + r \<noteq> 0" using pos by (simp add: r_def)
  have prior: "mat_add (mat_mul (mat_mul (mkA dt) (blk a b c)) (mat_T (mkA dt))) Q = blk a' b' c'"
    unfolding a'_def b'_def c'_def by (rule predict_blk)
  have S: "mat_add (mat_mul (mat_mul H (blk a' b' c')) (mat_T H)) (mat_scale (eye 6) r) =
        mat_scale (eye 6) (a' + r)"
    by (rule innovation_cov_blk)
  have inv: "linalg_inv (mat_scale (eye 6) (a' + r)) = Inr (mat_scale (eye 6) g)"
    unfolding g_def using nz by (rule linalg_inv_scalar)
  have R: "(if fresh then R_base else mat_scale R_base 100.0) = mat_scale (eye 6) r"
  proof (cases fresh)
    case True
    then show ?thesis by (simp add: r_def R_base_scalar(1))
  next
    case False
    then show ?thesis using R_base_scalar(2) by (simp add: r_def)
  qed
  have post: "mat_mul (mat_sub (eye state_dim)
              (mat_mul (mat_mul (mat_mul (blk a' b' c') (mat_T H)) (mat_scale (eye 6) g)) H))
           (blk a' b' c') = blk ((1 - a' * g) * a') ((1 - a' * g) * b') (c' - b' * g * b')"
    by (rule correct_blk)
  obtain dt0 msg where ch: "choose_dt t p = (dt0, msg)" by (cases "choose_dt t p")
  then have dt0: "dt0 = dt" by (simp add: dt_def)
  show ?thesis
  proof (cases fresh)
    case True
    then have r1: "r = 1" by (simp add: r_def)
    show ?thesis
      using len True R S inv post prior
      by (simp add: update_def prepare_def kalman_step_def ch dt0 Let_def A P set_dt_mkA r1)
  next
    case False
    then have r100: "r = 100" by (simp add: r_def)
    show ?thesis
      using len False R S inv post prior
      by (simp add: update_def prepare_def kalman_step_def ch dt0 Let_def A P set_dt_mkA r100)
  qed
qed



lemma update_kf_ok:
  assumes "kf_ok p"
  shows "\<exists>p'. update z t fresh p = Inr p' \<and> kf_ok p' \<and>
           current_fps p' = current_fps p \<and> default_dt p' = default_dt p \<and>
           use_fixed_fps p' = use_fixed_fps p \<and> log_callback p' = log_callback p"
proof (cases "length z = 6")
  case False
  then show ?thesis
    using assms by (simp add: update_wrong_length kf_ok_log)
next
  case True
  from assms obtain d a b c where
    A: "kf_A p = mkA d" and P: "kf_P p = blk a b c" and
    psd: "0 \<le> a" "0 \<le> c" "b * b \<le> a * c"
    by (rule kf_okE)
  define dt where "dt = fst (choose_dt t p)"
  define r :: real where "r = (if fresh then 1 else 100)"
  define a' where "a' = a + dt * b + dt * (b + dt * c) + 0.1"
  define b' where "b' = b + dt * c"
  define c' where "c' = c + 0.1"
  define g where "g = 1 / (a' + r)"
  from update_on_blk [OF True A P psd, of t fresh]
  obtain p' where p': "update z t fresh p = Inr p'" "kf_A p' = mkA dt"
    "kf_P p' = blk ((1 - a' * g) * a') ((1 - a' * g) * b') (c' - b' * g * b')"
    "current_fps p' = current_fps p" "default_dt p' = default_dt p"
    "use_fixed_fps p' = use_fixed_fps p" "log_callback p' = log_callback p"
    unfolding dt_def r_def a'_def b'_def c'_def g_def by blast
  have prior: "0 < a'" "0 \<le> c'" "b' * b' \<le> a' * c'"
    unfolding a'_def b'_def c'_def
    using psd_predict(1) [OF psd, where d = dt] psd_predict(2) [OF psd]
      psd_predict(3) [OF psd, where d = dt] by simp_all
  have r: "0 < r" by (simp add: r_def)
  have "kf_ok p'"
    using p'(2,3) psd_correct [OF prior r] unfolding g_def by (rule kf_okI)
  with p' show ?thesis by blast
qed


definition symmetric :: "mat \<Rightarrow> bool" where
  "symmetric M = (mat_T M = M)"

datatype kf_call = Update vec real bool | SetFps real "bool option" | Reset

fun run_calls :: "kf_call list \<Rightarrow> coordinate_predictor \<Rightarrow> py_error + coordinate_predictor" where
  "run_calls [] p = Inr p"
| "run_calls (Update z t fresh # calls) p =
     (case update z t fresh p of Inl e \<Rightarrow> Inl e | Inr p' \<Rightarrow> run_calls calls p')"
| "run_calls (SetFps fps use_fixed # calls) p = run_calls calls (set_fps fps use_fixed p)"
| "run_calls (Reset # calls) p = run_calls calls (reset p)"

lemma blk_symmetric: "symmetric (blk a b c)"
  by (simp add: symmetric_def blk_def mat_T_def upt12)

lemma blk_length: "length (blk a b c) = 12"
  by (simp add: blk_def)

lemma kf_ok_symmetric: "kf_ok p \<Longrightarrow> symmetric (kf_P p) \<and> length (kf_P p) = 12"
  by (erule kf_okE) (simp add: blk_symmetric blk_length)

lemma new_predictor_ok:
  assumes "new_predictor initial_fps = Inr p"
  shows "kf_ok p"
proof (rule kf_okI [of p 0 100 0 100])
  from assms have fields: "kf_A p = eye state_dim" "kf_P p = mat_scale (eye state_dim) 100"
    by (auto simp: new_predictor_def split: if_splits)
  show "kf_A p = mkA 0" using fields(1) by (simp only: eye_mkA)
  show "kf_P p = blk 100 0 100" using fields(2) by (simp only: init_P_blk)
qed simp_all

lemma set_fps_ok: "kf_ok (set_fps fps use_fixed p) = kf_ok p"
  by (simp add: set_fps_def kf_ok_log Let_def kf_ok_def split: option.splits)

lemma reset_ok:
  assumes "kf_ok p"
  shows "kf_ok (reset p)"
proof -
  from assms obtain d where "kf_A p = mkA d" by (rule kf_okE)
  then have A: "kf_A (reset p) = mkA d" by (simp add: reset_def)
  have "kf_P (reset p) = mat_scale (eye state_dim) 100" by (simp add: reset_def)
  then have P: "kf_P (reset p) = blk 100 0 100" by (simp only: init_P_blk)
  show ?thesis by (rule kf_okI [OF A P]) simp_all
qed

lemma run_calls_ok:
  "kf_ok p \<Longrightarrow> \<exists>p'. run_calls calls p = Inr p' \<and> kf_ok p'"
proof (induction calls arbitrary: p)
  case Nil
  then show ?case by simp
next
  case (Cons call calls)
  show ?case
  proof (cases call)
    case (Update z t fresh)
    from update_kf_ok [OF Cons.prems, of z t fresh]
    obtain p1 where "update z t fresh p = Inr p1" "kf_ok p1" by blast
    with Cons.IH [of p1] Update show ?thesis by simp
  next
    case (SetFps fps use_fixed)
    with Cons.IH [of "set_fps fps use_fixed p"] Cons.prems show ?thesis
      by (simp add: set_fps_ok)
  next
    case Reset
    with Cons.IH [of "reset p"] Cons.prems show ?thesis
      by (simp add: reset_ok)
  qed
qed

text \<open>
  C5. Starting from a freshly built estimator, after any sequence of calls of \<open>update\<close>
  (with any measurement, timestamp and freshness flag, and with calls of \<open>set_fps\<close> and
  \<open>reset\<close> in between) every call has returned normally and the 12x12 covariance \<open>P\<close> equals
  its transpose. Arithmetic is exact (the reals).
\<close>

theorem covariance_stays_symmetric:
  "new_predictor initial_fps = Inr p0 \<Longrightarrow>
   \<exists>p'. run_calls calls p0 = Inr p' \<and> symmetric (kf_P p') \<and> length (kf_P p') = 12"
proof -
  assume "new_predictor initial_fps = Inr p0"
  then have "kf_ok p0" by (rule new_predictor_ok)
  then obtain p' where "run_calls calls p0 = Inr p'" "kf_ok p'"
    using run_calls_ok by blast
  then show ?thesis using kf_ok_symmetric by blast
qed

theorem covariance_stays_symmetric_witness:
  "\<exists>p0 p'. new_predictor 30 = Inr p0 \<and>
     run_calls [Update [1, 2, 3, 4, 5, 6] 0 True, SetFps 25 (Some False),
                Update [1, 2, 3, 4, 5, 6] (1 / 2) False, Update [2, 2, 3, 4, 5, 6] 1 True] p0 = Inr p' \<and>
     symmetric (kf_P p') \<and> length (kf_P p') = 12"
proof -
  obtain p0 where p0: "new_predictor 30 = Inr p0"
    by (simp add: new_predictor_def)
  from covariance_stays_symmetric [OF p0] show ?thesis
    using p0 by blast
qed

lemma kalman_step_R: "kalman_step z p = Inr p' \<Longrightarrow> kf_R p' = kf_R p"
  by (auto simp: kalman_step_def Let_def split: sum.splits)

lemma prepare_R:
  "kf_R (prepare t fresh p) = (if fresh then R_base else mat_scale R_base 100.0)"
  by (simp add: prepare_def Let_def split_beta)

lemma R_entries:
  "R_base = map (\<lambda>i. map (\<lambda>j. if i = j then 1 else 0) [0..<6]) [0..<6]"
  "mat_scale R_base 100 = map (\<lambda>i. map (\<lambda>j. if i = j then 100 else 0) [0..<6]) [0..<6]"
  by (simp_all add: mat_defs)

lemma list12:
  assumes "length (x :: 'a list) = 12"
  obtains x0 x1 x2 x3 x4 x5 x6 x7 x8 x9 x10 x11
  where "x = [x0, x1, x2, x3, x4, x5, x6, x7, x8, x9, x10, x11]"
  using assms by (auto simp: numeral_eq_Suc length_Suc_conv)

lemma list6:
  assumes "length (z :: 'a list) = 6"
  obtains z0 z1 z2 z3 z4 z5 where "z = [z0, z1, z2, z3, z4, z5]"
  using assms by (auto simp: numeral_eq_Suc length_Suc_conv)

lemma gain_on_blk:
  assumes x: "length x = 12" and z: "length z = 6"
  shows "vec_add (mat_vec (mkA dt) x)
           (mat_vec (mat_mul (mat_mul (blk a b c) (mat_T H)) (mat_scale (eye 6) g))
              (vec_sub z (mat_vec H (mat_vec (mkA dt) x)))) =
         map (\<lambda>i. x ! i + dt * x ! (i + 6) + a * g * (z ! i - (x ! i + dt * x ! (i + 6)))) [0..<6] @
         map (\<lambda>i. x ! (i + 6) + b * g * (z ! i - (x ! i + dt * x ! (i + 6)))) [0..<6]"
proof -
  from x obtain x0 x1 x2 x3 x4 x5 x6 x7 x8 x9 x10 x11
    where xs: "x = [x0, x1, x2, x3, x4, x5, x6, x7, x8, x9, x10, x11]" by (rule list12)
  from z obtain z0 z1 z2 z3 z4 z5 where zs: "z = [z0, z1, z2, z3, z4, z5]" by (rule list6)
  show ?thesis
    unfolding xs zs
    by (simp add: vec_add_def vec_sub_def mat_vec_def mkA_def blk_def mat_defs algebra_simps)
qed


lemma update_closed_form:
  fixes t :: real and fresh :: bool
  assumes ok: "kf_ok p" and x: "length (kf_x p) = 12" and z: "length z = 6"
  defines "dt \<equiv> fst (choose_dt t p)"
    and "r \<equiv> (if fresh then 1 else 100 :: real)"
  defines "a \<equiv> kf_P p ! 0 ! 0 + dt * kf_P p ! 0 ! 6 +
                 dt * (kf_P p ! 0 ! 6 + dt * kf_P p ! 6 ! 6) + 0.1"
    and "b \<equiv> kf_P p ! 0 ! 6 + dt * kf_P p ! 6 ! 6"
    and "c \<equiv> kf_P p ! 6 ! 6 + 0.1"
  shows "\<exists>p'. update z t fresh p = Inr p' \<and> kf_ok p' \<and> length (kf_x p') = 12 \<and>
           kf_R p' = map (\<lambda>i. map (\<lambda>j. if i = j then r else 0) [0..<6]) [0..<6] \<and>
           mat_add (mat_mul (mat_mul H
                      (mat_add (mat_mul (mat_mul (kf_A p') (kf_P p)) (mat_T (kf_A p'))) Q))
                      (mat_T H)) (kf_R p') =
             map (\<lambda>i. map (\<lambda>j. if i = j then a + r else 0) [0..<6]) [0..<6] \<and>
           kf_P p' = blk ((1 - a / (a + r)) * a) ((1 - a / (a + r)) * b) (c - b * b / (a + r)) \<and>
           (\<forall>i<6. kf_x p' ! i =
                     kf_x p ! i + dt * kf_x p ! (i + 6) +
                       a / (a + r) * (z ! i - (kf_x p ! i + dt * kf_x p ! (i + 6))) \<and>
                   kf_x p' ! (i + 6) =
                     kf_x p ! (i + 6) +
                       b / (a + r) * (z ! i - (kf_x p ! i + dt * kf_x p ! (i + 6))))"
proof -
  from ok obtain d a0 b0 c0 where
    A: "kf_A p = mkA d" and P: "kf_P p = blk a0 b0 c0" and
    psd: "0 \<le> a0" "0 \<le> c0" "b0 * b0 \<le> a0 * c0"
    by (rule kf_okE)
  have abc: "a = a0 + dt * b0 + dt * (b0 + dt * c0) + 0.1" "b = b0 + dt * c0" "c = c0 + 0.1"
    by (simp_all add: a_def b_def c_def P blk_entries)
  define g where "g = 1 / (a + r)"
  from update_on_blk [OF z A P psd, of t fresh]
  obtain p' where p': "update z t fresh p = Inr p'" "kf_A p' = mkA dt"
    "kf_P p' = blk ((1 - a * g) * a) ((1 - a * g) * b) (c - b * g * b)"
    "kf_R p' = (if fresh then R_base else mat_scale R_base 100)"
    "kf_x p' = vec_add (mat_vec (mkA dt) (kf_x p))
                 (mat_vec (mat_mul (mat_mul (blk a b c) (mat_T H)) (mat_scale (eye 6) g))
                    (vec_sub z (mat_vec H (mat_vec (mkA dt) (kf_x p)))))"
    unfolding abc g_def dt_def r_def by auto
  have ok': "kf_ok p'"
    using update_kf_ok [OF ok, of z t fresh] p'(1) by auto
  have R: "kf_R p' = map (\<lambda>i. map (\<lambda>j. if i = j then r else 0) [0..<6]) [0..<6]"
    unfolding p'(4) r_def using R_entries by (cases fresh) simp_all
  have Rs: "kf_R p' = mat_scale (eye 6) r"
    unfolding R by (simp add: mat_defs)
  have prior: "mat_add (mat_mul (mat_mul (kf_A p') (kf_P p)) (mat_T (kf_A p'))) Q = blk a b c"
    unfolding p'(2) P abc by (rule predict_blk)
  have S: "mat_add (mat_mul (mat_mul H
                      (mat_add (mat_mul (mat_mul (kf_A p') (kf_P p)) (mat_T (kf_A p'))) Q))
                      (mat_T H)) (kf_R p') =
             map (\<lambda>i. map (\<lambda>j. if i = j then a + r else 0) [0..<6]) [0..<6]"
    unfolding prior Rs innovation_cov_blk by (simp add: mat_defs)
  have Pn: "kf_P p' = blk ((1 - a / (a + r)) * a) ((1 - a / (a + r)) * b) (c - b * b / (a + r))"
    unfolding p'(3) g_def by simp
  have xs: "kf_x p' =
         map (\<lambda>i. kf_x p ! i + dt * kf_x p ! (i + 6) +
                     a * g * (z ! i - (kf_x p ! i + dt * kf_x p ! (i + 6)))) [0..<6] @
         map (\<lambda>i. kf_x p ! (i + 6) +
                     b * g * (z ! i - (kf_x p ! i + dt * kf_x p ! (i + 6)))) [0..<6]"
    unfolding p'(5) using x z by (rule gain_on_blk)
  have xn: "kf_x p' ! i =
              kf_x p ! i + dt * kf_x p ! (i + 6) +
                a / (a + r) * (z ! i - (kf_x p ! i + dt * kf_x p ! (i + 6)))"
    "kf_x p' ! (i + 6) =
              kf_x p ! (i + 6) +
                b / (a + r) * (z ! i - (kf_x p ! i + dt * kf_x p ! (i + 6)))"
    if "i < 6" for i
    using that unfolding xs g_def by (simp_all add: nth_append)
  have xl: "length (kf_x p') = 12" unfolding xs by simp
  show ?thesis
    using p'(1) ok' xl R S Pn xn by blast
qed


lemma set_fps_x: "kf_x (set_fps fps m p) = kf_x p"
  by (simp add: set_fps_def Let_def split: option.splits)

lemma run_calls_state:
  "kf_ok p \<Longrightarrow> length (kf_x p) = 12 \<Longrightarrow> run_calls calls p = Inr p' \<Longrightarrow>
     kf_ok p' \<and> length (kf_x p') = 12"
proof (induction calls arbitrary: p)
  case Nil
  then show ?case by simp
next
  case (Cons call calls)
  show ?case
  proof (cases call)
    case (Update z t fresh)
    have "\<exists>q. update z t fresh p = Inr q \<and> kf_ok q \<and> length (kf_x q) = 12"
    proof (cases "length z = 6")
      case True
      from update_closed_form [OF Cons.prems(1,2) True, of t fresh]
      show ?thesis by blast
    next
      case False
      then show ?thesis
        using Cons.prems(1,2) by (simp add: update_wrong_length kf_ok_log)
    qed
    then obtain q where q: "update z t fresh p = Inr q" "kf_ok q" "length (kf_x q) = 12"
      by blast
    from Cons.prems(3) Update q(1) have "run_calls calls q = Inr p'" by simp
    from Cons.IH [OF q(2,3) this] show ?thesis .
  next
    case (SetFps fps use_fixed)
    from Cons.prems(3) SetFps have r: "run_calls calls (set_fps fps use_fixed p) = Inr p'"
      by simp
    have "kf_ok (set_fps fps use_fixed p)" "length (kf_x (set_fps fps use_fixed p)) = 12"
      using Cons.prems(1,2) by (simp_all add: set_fps_ok set_fps_x)
    from Cons.IH [OF this r] show ?thesis .
  next
    case Reset
    from Cons.prems(3) Reset have r: "run_calls calls (reset p) = Inr p'" by simp
    have "kf_ok (reset p)" using Cons.prems(1) by (rule reset_ok)
    moreover have "length (kf_x (reset p)) = 12"
      by (simp add: reset_def zeros_def state_dim_def COORD_DIMENSION_def)
    ultimately show ?thesis using Cons.IH [OF _ _ r] by blast
  qed
qed

lemma new_predictor_x: "new_predictor initial_fps = Inr p \<Longrightarrow> length (kf_x p) = 12"
  by (auto simp: new_predictor_def zeros_def state_dim_def COORD_DIMENSION_def split: if_splits)

text \<open>
  C8. A call of \<open>update\<close> with \<open>is_coord_updated = False\<close> (and a measurement of length 6)
  runs its prediction and correction with \<open>R = R_base * 100\<close>, the diagonal matrix of 100s,
  and leaves that value in \<open>self.R\<close>; the next call with \<open>is_coord_updated = True\<close> runs
  with \<open>R = R_base\<close> exactly, the identity, and leaves \<open>R_base\<close> behind, whatever \<open>R\<close> was
  before. On an estimator whose covariance has its block form the 100 and the 1 are what
  the two updates compute with (every estimator reached from a freshly built one by calls
  of \<open>update\<close>, \<open>set_fps\<close> and \<open>reset\<close> is such a one): with \<open>a\<close>, \<open>b\<close>, \<open>c\<close> the position variance, the
  position-rate covariance and the rate variance after the prediction, the innovation
  covariance is \<open>(a + 100) I\<close> in the stale update and \<open>(a' + 1) I\<close> in the fresh one, the
  gain on position is \<open>a / (a + 100)\<close> and then \<open>a' / (a' + 1)\<close>, and the state and the
  covariance that the update leaves behind are the ones that follow from these.
\<close>

theorem stale_measurement_inflates_R_once:
  fixes t t' :: real and p :: coordinate_predictor
  assumes len: "length z = 6"
  defines "dt \<equiv> fst (choose_dt t p)"
  defines "a \<equiv> kf_P p ! 0 ! 0 + dt * kf_P p ! 0 ! 6 +
                 dt * (kf_P p ! 0 ! 6 + dt * kf_P p ! 6 ! 6) + 0.1"
    and "b \<equiv> kf_P p ! 0 ! 6 + dt * kf_P p ! 6 ! 6"
    and "c \<equiv> kf_P p ! 6 ! 6 + 0.1"
  defines "p1 \<equiv> projr (update z t False p)"
  defines "dt' \<equiv> fst (choose_dt t' p1)"
  defines "a' \<equiv> kf_P p1 ! 0 ! 0 + dt' * kf_P p1 ! 0 ! 6 +
                  dt' * (kf_P p1 ! 0 ! 6 + dt' * kf_P p1 ! 6 ! 6) + 0.1"
    and "b' \<equiv> kf_P p1 ! 0 ! 6 + dt' * kf_P p1 ! 6 ! 6"
    and "c' \<equiv> kf_P p1 ! 6 ! 6 + 0.1"
  shows
    "update z t False p = kalman_step z (prepare t False p) \<and>
     kf_R (prepare t False p) = mat_scale R_base 100 \<and>
     (\<forall>q1. update z t False p = Inr q1 \<longrightarrow>
        kf_R q1 = mat_scale R_base 100 \<and>
        (\<forall>y s. length y = 6 \<longrightarrow>
           update y s True q1 = kalman_step y (prepare s True q1) \<and>
           kf_R (prepare s True q1) = R_base \<and>
           (\<forall>q2. update y s True q1 = Inr q2 \<longrightarrow> kf_R q2 = R_base))) \<and>
     (kf_ok p \<and> length (kf_x p) = 12 \<and> length z' = 6 \<longrightarrow>
        update z t False p = Inr p1 \<and>
        kf_R p1 = map (\<lambda>i. map (\<lambda>j. if i = j then 100 else 0) [0..<6]) [0..<6] \<and>
        mat_add (mat_mul (mat_mul H
                   (mat_add (mat_mul (mat_mul (kf_A p1) (kf_P p)) (mat_T (kf_A p1))) Q))
                   (mat_T H)) (kf_R p1) =
          map (\<lambda>i. map (\<lambda>j. if i = j then a + 100 else 0) [0..<6]) [0..<6] \<and>
        kf_P p1 = blk ((1 - a / (a + 100)) * a) ((1 - a / (a + 100)) * b)
                      (c - b * b / (a + 100)) \<and>
        (\<forall>i<6. kf_x p1 ! i =
                  kf_x p ! i + dt * kf_x p ! (i + 6) +
                    a / (a + 100) * (z ! i - (kf_x p ! i + dt * kf_x p ! (i + 6))) \<and>
                kf_x p1 ! (i + 6) =
                  kf_x p ! (i + 6) +
                    b / (a + 100) * (z ! i - (kf_x p ! i + dt * kf_x p ! (i + 6)))) \<and>
        (\<exists>p2. update z' t' True p1 = Inr p2 \<and>
           kf_R p2 = map (\<lambda>i. map (\<lambda>j. if i = j then 1 else 0) [0..<6]) [0..<6] \<and>
           mat_add (mat_mul (mat_mul H
                      (mat_add (mat_mul (mat_mul (kf_A p2) (kf_P p1)) (mat_T (kf_A p2))) Q))
                      (mat_T H)) (kf_R p2) =
             map (\<lambda>i. map (\<lambda>j. if i = j then a' + 1 else 0) [0..<6]) [0..<6] \<and>
           kf_P p2 = blk ((1 - a' / (a' + 1)) * a') ((1 - a' / (a' + 1)) * b')
                         (c' - b' * b' / (a' + 1)) \<and>
           (\<forall>i<6. kf_x p2 ! i =
                     kf_x p1 ! i + dt' * kf_x p1 ! (i + 6) +
                       a' / (a' + 1) * (z' ! i - (kf_x p1 ! i + dt' * kf_x p1 ! (i + 6))) \<and>
                   kf_x p2 ! (i + 6) =
                     kf_x p1 ! (i + 6) +
                       b' / (a' + 1) * (z' ! i - (kf_x p1 ! i + dt' * kf_x p1 ! (i + 6)))))) \<and>
     (new_predictor initial_fps = Inr p0 \<and> run_calls calls p0 = Inr p \<longrightarrow>
        kf_ok p \<and> length (kf_x p) = 12)"
proof (intro conjI impI)
  show "update z t False p = kalman_step z (prepare t False p)"
    using len by (simp add: update_def)
  show "kf_R (prepare t False p) = mat_scale R_base 100"
    by (simp add: prepare_R)
  show "\<forall>q1. update z t False p = Inr q1 \<longrightarrow>
        kf_R q1 = mat_scale R_base 100 \<and>
        (\<forall>y s. length y = 6 \<longrightarrow>
           update y s True q1 = kalman_step y (prepare s True q1) \<and>
           kf_R (prepare s True q1) = R_base \<and>
           (\<forall>q2. update y s True q1 = Inr q2 \<longrightarrow> kf_R q2 = R_base))"
    using len by (auto simp: update_def prepare_R dest: kalman_step_R)
next
  assume h: "kf_ok p \<and> length (kf_x p) = 12 \<and> length z' = 6"
  then have ok: "kf_ok p" and x: "length (kf_x p) = 12" and len': "length z' = 6"
    by simp_all
  let ?stale = "\<lambda>q. update z t False p = Inr q \<and> kf_ok q \<and> length (kf_x q) = 12 \<and>
        kf_R q = map (\<lambda>i. map (\<lambda>j. if i = j then 100 else 0) [0..<6]) [0..<6] \<and>
        mat_add (mat_mul (mat_mul H
                   (mat_add (mat_mul (mat_mul (kf_A q) (kf_P p)) (mat_T (kf_A q))) Q))
                   (mat_T H)) (kf_R q) =
          map (\<lambda>i. map (\<lambda>j. if i = j then a + 100 else 0) [0..<6]) [0..<6] \<and>
        kf_P q = blk ((1 - a / (a + 100)) * a) ((1 - a / (a + 100)) * b)
                      (c - b * b / (a + 100)) \<and>
        (\<forall>i<6. kf_x q ! i =
                  kf_x p ! i + dt * kf_x p ! (i + 6) +
                    a / (a + 100) * (z ! i - (kf_x p ! i + dt * kf_x p ! (i + 6))) \<and>
                kf_x q ! (i + 6) =
                  kf_x p ! (i + 6) +
                    b / (a + 100) * (z ! i - (kf_x p ! i + dt * kf_x p ! (i + 6))))"
  have "\<exists>q. ?stale q"
    unfolding a_def b_def c_def dt_def
    by (rule update_closed_form [OF ok x len, of t False, unfolded if_False])
  then obtain q where q: "?stale q" ..
  then have p1: "p1 = q" by (simp add: p1_def)
  have first: "?stale p1" unfolding p1 by (rule q)
  show "update z t False p = Inr p1" using first by blast
  show "kf_R p1 = map (\<lambda>i. map (\<lambda>j. if i = j then 100 else 0) [0..<6]) [0..<6]"
    using first by blast
  show "mat_add (mat_mul (mat_mul H
                   (mat_add (mat_mul (mat_mul (kf_A p1) (kf_P p)) (mat_T (kf_A p1))) Q))
                   (mat_T H)) (kf_R p1) =
          map (\<lambda>i. map (\<lambda>j. if i = j then a + 100 else 0) [0..<6]) [0..<6]"
    using first by blast
  show "kf_P p1 = blk ((1 - a / (a + 100)) * a) ((1 - a / (a + 100)) * b)
                      (c - b * b / (a + 100))"
    using first by blast
  show "\<forall>i<6. kf_x p1 ! i =
                  kf_x p ! i + dt * kf_x p ! (i + 6) +
                    a / (a + 100) * (z ! i - (kf_x p ! i + dt * kf_x p ! (i + 6))) \<and>
                kf_x p1 ! (i + 6) =
                  kf_x p ! (i + 6) +
                    b / (a + 100) * (z ! i - (kf_x p ! i + dt * kf_x p ! (i + 6)))"
    using first by blast
  have ok1: "kf_ok p1" and x1: "length (kf_x p1) = 12"
    using first by blast+
  let ?fresh = "\<lambda>q. update z' t' True p1 = Inr q \<and> kf_ok q \<and> length (kf_x q) = 12 \<and>
           kf_R q = map (\<lambda>i. map (\<lambda>j. if i = j then 1 else 0) [0..<6]) [0..<6] \<and>
           mat_add (mat_mul (mat_mul H
                      (mat_add (mat_mul (mat_mul (kf_A q) (kf_P p1)) (mat_T (kf_A q))) Q))
                      (mat_T H)) (kf_R q) =
             map (\<lambda>i. map (\<lambda>j. if i = j then a' + 1 else 0) [0..<6]) [0..<6] \<and>
           kf_P q = blk ((1 - a' / (a' + 1)) * a') ((1 - a' / (a' + 1)) * b')
                         (c' - b' * b' / (a' + 1)) \<and>
           (\<forall>i<6. kf_x q ! i =
                     kf_x p1 ! i + dt' * kf_x p1 ! (i + 6) +
                       a' / (a' + 1) * (z' ! i - (kf_x p1 ! i + dt' * kf_x p1 ! (i + 6))) \<and>
                   kf_x q ! (i + 6) =
                     kf_x p1 ! (i + 6) +
                       b' / (a' + 1) * (z' ! i - (kf_x p1 ! i + dt' * kf_x p1 ! (i + 6))))"
  have "\<exists>q. ?fresh q"
    unfolding a'_def b'_def c'_def dt'_def
    by (rule update_closed_form [OF ok1 x1 len', of t' True, unfolded if_True])
  then obtain p2 where p2: "?fresh p2" ..
  show "\<exists>p2. update z' t' True p1 = Inr p2 \<and>
           kf_R p2 = map (\<lambda>i. map (\<lambda>j. if i = j then 1 else 0) [0..<6]) [0..<6] \<and>
           mat_add (mat_mul (mat_mul H
                      (mat_add (mat_mul (mat_mul (kf_A p2) (kf_P p1)) (mat_T (kf_A p2))) Q))
                      (mat_T H)) (kf_R p2) =
             map (\<lambda>i. map (\<lambda>j. if i = j then a' + 1 else 0) [0..<6]) [0..<6] \<and>
           kf_P p2 = blk ((1 - a' / (a' + 1)) * a') ((1 - a' / (a' + 1)) * b')
                         (c' - b' * b' / (a' + 1)) \<and>
           (\<forall>i<6. kf_x p2 ! i =
                     kf_x p1 ! i + dt' * kf_x p1 ! (i + 6) +
                       a' / (a' + 1) * (z' ! i - (kf_x p1 ! i + dt' * kf_x p1 ! (i + 6))) \<and>
                   kf_x p2 ! (i + 6) =
                     kf_x p1 ! (i + 6) +
                       b' / (a' + 1) * (z' ! i - (kf_x p1 ! i + dt' * kf_x p1 ! (i + 6))))"
    using p2 by (intro exI [of _ p2]) blast
next
  assume r: "new_predictor initial_fps = Inr p0 \<and> run_calls calls p0 = Inr p"
  then have "kf_ok p0" "length (kf_x p0) = 12"
    using new_predictor_ok new_predictor_x by blast+
  from run_calls_state [OF this] r show "kf_ok p" "length (kf_x p) = 12" by blast+
qed


theorem stale_measurement_inflates_R_once_witness:
  "\<exists>p0 p1 p2. new_predictor 30 = Inr p0 \<and> length [1, 2, 3, 4, 5, 6 :: real] = 6 \<and>
     kf_ok p0 \<and> length (kf_x p0) = 12 \<and>
     update [1, 2, 3, 4, 5, 6] 0 False p0 = Inr p1 \<and> kf_R p1 = mat_scale R_base 100 \<and>
     kf_P p1 ! 0 ! 0 = (1 - 9019 / 18019) * (9019 / 90) \<and> kf_x p1 ! 0 = 9019 / 18019 \<and>
     update [1, 2, 3, 4, 5, 6] 1 True p1 = Inr p2 \<and> kf_R p2 = R_base"
proof -
  obtain p0 where p0: "new_predictor 30 = Inr p0"
    by (simp add: new_predictor_def)
  have f: "kf_P p0 = mat_scale (eye state_dim) 100" "kf_x p0 = zeros state_dim"
    "choose_dt 0 p0 = (1 / 30, MsgFixedDt (1 / 30) 30)"
    using p0 by (auto simp: new_predictor_def choose_dt_def)
  have len: "length [1, 2, 3, 4, 5, 6 :: real] = 6" by simp
  have start: "new_predictor 30 = Inr p0 \<and> run_calls [] p0 = Inr p0"
    using p0 by simp
  note reach = stale_measurement_inflates_R_once
                 [OF len, where p = p0 and p0 = p0 and calls = "[]" and initial_fps = 30,
                  THEN conjunct2, THEN conjunct2, THEN conjunct2, THEN conjunct2,
                  THEN mp, OF start]
  have ok0: "kf_ok p0" using reach by (rule conjunct1)
  have P0: "kf_P p0 ! 0 ! 0 = 100" "kf_P p0 ! 0 ! 6 = 0" "kf_P p0 ! 6 ! 6 = 100"
    unfolding f(1) init_P_blk by (simp_all add: blk_entries)
  have x0: "length (kf_x p0) = 12" "kf_x p0 ! 0 = 0" "kf_x p0 ! 6 = 0"
    by (simp_all add: f(2) zeros_def state_dim_def COORD_DIMENSION_def)
  obtain p1 where p1: "update [1, 2, 3, 4, 5, 6] 0 False p0 = Inr p1"
    using update_kf_ok [OF ok0] by blast
  then have pr: "projr (update [1, 2, 3, 4, 5, 6] 0 False p0) = p1" by simp
  have hyp: "kf_ok p0 \<and> length (kf_x p0) = 12 \<and> length [1, 2, 3, 4, 5, 6 :: real] = 6"
    using ok0 x0(1) by simp
  note th = stale_measurement_inflates_R_once
              [OF len, where p = p0 and t = 0 and z' = "[1, 2, 3, 4, 5, 6]" and t' = 1,
               unfolded pr f(3) fst_conv P0]
  note th4 = th [THEN conjunct2, THEN conjunct2, THEN conjunct2, THEN conjunct1,
                 THEN mp, OF hyp]
  note R1e = th4 [THEN conjunct2, THEN conjunct1]
  note P1 = th4 [THEN conjunct2, THEN conjunct2, THEN conjunct2, THEN conjunct1]
  note X1 = th4 [THEN conjunct2, THEN conjunct2, THEN conjunct2, THEN conjunct2,
                 THEN conjunct1, rule_format, of 0, THEN conjunct1]
  note U2 = th4 [THEN conjunct2, THEN conjunct2, THEN conjunct2, THEN conjunct2,
                 THEN conjunct2]
  have R1: "kf_R p1 = mat_scale R_base 100"
    unfolding R1e by (simp only: R_entries(2))
  from U2 obtain p2 where p2: "update [1, 2, 3, 4, 5, 6] 1 True p1 = Inr p2"
    "kf_R p2 = map (\<lambda>i. map (\<lambda>j. if i = j then 1 else 0) [0..<6]) [0..<6]"
    by (elim exE conjE)
  have R2: "kf_R p2 = R_base" unfolding p2(2) by (simp only: R_entries(1))
  have P100: "kf_P p1 ! 0 ! 0 = (1 - 9019 / 18019) * (9019 / 90)"
    unfolding P1 blk_entries by simp
  have X10: "kf_x p1 ! 0 = 9019 / 18019"
    using X1 by (simp add: x0)
  show ?thesis
    using p0 len ok0 x0(1) p1 R1 P100 X10 p2(1) R2 by blast
qed

text \<open>
  C9. A call of \<open>update\<close> with a measurement whose length is not 6 returns normally and
  leaves the state vector, the covariance, the transition matrix, the last-update
  timestamp, the current \<open>R\<close> and the state history as they were; the only effect is the
  line handed to the log callback, when one is installed.
\<close>

theorem wrong_length_measurement_is_noop:
  "length measurement \<noteq> 6 \<Longrightarrow>
   (\<exists>p'. update measurement timestamp is_coord_updated p = Inr p' \<and>
      kf_x p' = kf_x p \<and> kf_P p' = kf_P p \<and> kf_A p' = kf_A p \<and>
      last_update_time p' = last_update_time p \<and> kf_R p' = kf_R p \<and>
      state_history p' = state_history p \<and>
      log_out p' = (if log_callback p then log_out p @ [MsgLengthError (length measurement)]
                    else log_out p) \<and>
      p' = p\<lparr>log_out := log_out p'\<rparr>)"
  by (simp add: update_def kf_log_def)

theorem wrong_length_measurement_is_noop_witness:
  "\<exists>p0. new_predictor 30 = Inr p0 \<and> length [1, 2, 3 :: real] \<noteq> 6 \<and>
     update [1, 2, 3] 0 True p0 = Inr p0 \<and>
     update [1, 2, 3, 4, 5, 6, 7] 0 True (p0\<lparr>log_callback := True\<rparr>) =
       Inr (p0\<lparr>log_callback := True, log_out := [MsgLengthError 7]\<rparr>)"
proof -
  obtain p0 where p0: "new_predictor 30 = Inr p0"
    by (simp add: new_predictor_def)
  have off: "log_callback p0 = False" "log_out p0 = []"
    using p0 by (auto simp: new_predictor_def)
  have len: "length [1, 2, 3 :: real] \<noteq> 6" "length [1, 2, 3, 4, 5, 6, 7 :: real] \<noteq> 6"
    by simp_all
  from wrong_length_measurement_is_noop [OF len(1), of 0 True p0]
    wrong_length_measurement_is_noop [OF len(2), of 0 True "p0\<lparr>log_callback := True\<rparr>"]
  show ?thesis using p0 off by auto
qed

section \<open>Session controller and timing mode arbiter (TerahertzDetectorUI.py)\<close>

text \<open>
  The main window holds the session state. Of its widgets only the values the handlers
  read or write are kept: the checked state of \<open>record_btn\<close>, \<open>kalman_mode_btn\<close>,
  \<open>auto_switch_check\<close> and \<open>auto_save_check\<close>, the value of \<open>frame_count_spin\<close> and the text of
  \<open>path_edit\<close>. Drawing (labels, pixmaps, the 3D view) has no effect on this state and is
  left out. \<open>_log\<close> appends the module and the level of each entry to \<open>ui_log\<close>; the lines
  the estimator hands to its callback are in its own \<open>log_out\<close>. The fields \<open>delay_ms\<close> and
  \<open>measured_fps\<close> are the attributes \<open>_current_delay_ms\<close> and \<open>_measured_fps\<close>, and the
  \<open>pb_\<close> fields are the lists of the playback controller.

  The 12-element coordinate arrays are objects that the code shares and writes in place,
  so they live in an explicit store: \<open>heap\<close> maps an address to the array's contents,
  \<open>next_addr\<close> is the next unused address, and \<open>current_coordinate\<close> and the entries of the
  playback controller's \<open>coords\<close> list are addresses.
\<close>

definition AUTO_SWITCH_THRESHOLD_MS :: real where "AUTO_SWITCH_THRESHOLD_MS = 100.0"
definition FPS_DIFF_THRESHOLD :: real where "FPS_DIFF_THRESHOLD = 5.0"

datatype log_level = LOG_DEBUG | LOG_INFO | LOG_WARNING | LOG_ERROR

datatype log_module =
    ModAcquire | ModProcess | ModCoord | ModAutoSwitch | ModSetting | ModCommand
  | ModPlayback | ModMemory | ModSave

datatype command = START | STOP

type_synonym addr = nat

record playback_controller =
  pb_frames :: "frame list"
  pb_coords :: "addr list"
  pb_fps_values :: "real list"
  pb_current_index :: nat

record ui_state =
  tcp_client_socket :: bool
  sent :: "command list"
  frame_buffer :: frame_buffer
  data_saver :: bool
  save_frame_raises :: bool
  saved_frames :: "(nat \<times> frame \<times> vec \<times> real) list"
  current_frame :: "frame option"
  recorded_frames :: "frame list"
  is_recording :: bool
  reference_frame_for_playback :: "frame option"
  is_playback_mode :: bool
  heap :: "addr \<Rightarrow> vec"
  next_addr :: addr
  current_coordinate :: addr
  push_fps :: real
  last_received_coord :: vec
  coord_repeat_count :: nat
  session_started :: bool
  waiting_for_first_coordinate :: bool
  first_frame_data :: "frame option"
  coordinate_predictor :: coordinate_predictor
  fps_timer_active :: bool
  fps_cnt :: nat
  t_start :: real
  delay_ms :: real
  measured_fps :: real
  is_calibration_mode :: bool
  playback_controller :: playback_controller
  frame_count :: nat
  recording_start_time :: real
  record_btn :: bool
  kalman_mode_btn :: bool
  auto_switch_check :: bool
  auto_save_check :: bool
  frame_count_spin :: nat
  path_edit :: string
  ui_log :: "(log_module \<times> log_level) list"

definition ui_log_add :: "log_module \<Rightarrow> log_level \<Rightarrow> ui_state \<Rightarrow> ui_state" where
  "ui_log_add m l st = st\<lparr>ui_log := ui_log st @ [(m, l)]\<rparr>"

text \<open>
  \<open>_save_current_frame\<close> hands the frame to the data saver when there is one. The request
  is recorded with the contents the coordinate array has at that moment. When
  \<open>process_current_frame\<close> or \<open>save_frame\<close> raises (\<open>save_frame_raises\<close>), the exception is
  caught, nothing is saved and an error entry is logged.
\<close>

definition save_current_frame :: "ui_state \<Rightarrow> ui_state" where
  "save_current_frame st =
     (case current_frame st of
        Some f \<Rightarrow>
          (if data_saver st
           then (if save_frame_raises st then ui_log_add ModSave LOG_ERROR st
                 else st\<lparr>saved_frames := saved_frames st @
                        [(frame_count st, f, heap st (current_coordinate st), push_fps st)]\<rparr>)
           else st)
      | None \<Rightarrow> st)"

definition process_cached_first_frame :: "frame \<Rightarrow> ui_state \<Rightarrow> ui_state" where
  "process_cached_first_frame data st =
     (let st1 = st\<lparr>frame_count := 1, current_frame := Some data,
                    frame_buffer := add_frame data (frame_buffer st),
                    recorded_frames := recorded_frames st @ [data]\<rparr>;
          st2 = ui_log_add ModAcquire LOG_INFO st1
      in save_current_frame st2)"

text \<open>
  \<open>PlaybackController.set_session_data\<close>. The timer interval is \<open>1000 // int(avg_fps)\<close>:
  when the mean of the fps values lies strictly between \<open>-1\<close> and \<open>1\<close> the divisor is \<open>0\<close>
  and Python raises, after the three lists and the index have been assigned.
\<close>

definition set_session_data ::
  "frame list \<Rightarrow> addr list \<Rightarrow> real list \<Rightarrow> playback_controller
     \<Rightarrow> py_error option \<times> playback_controller" where
  "set_session_data frames coords fps_values pc =
     (let pc1 = pc\<lparr>pb_frames := frames, pb_coords := coords, pb_fps_values := fps_values,
                    pb_current_index := length frames - 1\<rparr>;
          avg_fps = sum_list fps_values / real (length fps_values)
      in if fps_values \<noteq> [] \<and> - 1 < avg_fps \<and> avg_fps < 1
         then (Some ZeroDivisionError, pc1) else (None, pc1))"

text \<open>
  \<open>stop_recording\<close>. The result carries the exception, if one escaped, together with the
  state at that moment, because \<open>on_record_clicked\<close> catches it and goes on. Writing the
  calibration file and closing the data saver's session touch the disk only.
\<close>

definition stop_recording :: "ui_state \<Rightarrow> py_error option \<times> ui_state" where
  "stop_recording st =
     (if \<not> is_recording st then (None, st)
      else
        (let st1 = st\<lparr>is_recording := False, record_btn := False, data_saver := False,
                       reference_frame_for_playback := reference_frame (frame_buffer st)\<rparr>
         in if recorded_frames st1 \<noteq> [] then
              (let pc = playback_controller st1;
                   (err, pc1) = set_session_data (recorded_frames st1) (pb_coords pc)
                                  (pb_fps_values pc) pc;
                   st2 = st1\<lparr>playback_controller := pc1\<rparr>
               in case err of
                    Some e \<Rightarrow> (Some e, st2)
                  | None \<Rightarrow>
                      (None, (ui_log_add ModPlayback LOG_INFO (ui_log_add ModMemory LOG_INFO st2))
                               \<lparr>is_playback_mode := True\<rparr>))
            else if pb_frames (playback_controller st1) \<noteq> []
              then (None, ui_log_add ModPlayback LOG_INFO (st1\<lparr>is_playback_mode := True\<rparr>))
              else (None, st1\<lparr>is_playback_mode := False\<rparr>)))"

text \<open>
  \<open>sanitize_path\<close> (C.py) replaces each of the characters \<open><>"|?*\<close> and each control
  character below \<open>0x20\<close> by an underscore.
\<close>

definition sanitize_path :: "string \<Rightarrow> string" where
  "sanitize_path path =
     map (\<lambda>c. if c \<in> {CHR ''<'', CHR ''>'', CHR 0x22, CHR ''|'', CHR ''?'', CHR ''*''} \<or>
                  (of_char c :: nat) < 32
               then CHR ''_'' else c) path"

text \<open>
  \<open>start_recording\<close>; \<open>now\<close> is the value of \<open>time.time()\<close> and \<open>mkdir_ok\<close> tells whether the
  storage directory could be created. The cleaned path is written back to \<open>path_edit\<close>
  before the directory is created.
\<close>

definition start_recording :: "real \<Rightarrow> bool \<Rightarrow> ui_state \<Rightarrow> ui_state" where
  "start_recording now mkdir_ok st =
     (let st0 = st\<lparr>playback_controller :=
                     (playback_controller st)\<lparr>pb_coords := [], pb_fps_values := []\<rparr>\<rparr>
      in if path_edit st0 = []
         then (ui_log_add ModAcquire LOG_ERROR st0)\<lparr>record_btn := False\<rparr>
         else
           (let clean = st0\<lparr>path_edit := sanitize_path (path_edit st0)\<rparr>
            in if \<not> mkdir_ok
               then (ui_log_add ModAcquire LOG_ERROR clean)\<lparr>record_btn := False\<rparr>
               else
                 (let st1 = clean\<lparr>recorded_frames := [],
                                  frame_buffer := clear_buffer (frame_buffer clean),
                                  reference_frame_for_playback := None, first_frame_data := None,
                                  data_saver := False, is_playback_mode := False\<rparr>;
                      st2 = ui_log_add ModMemory LOG_INFO st1;
                      st3 = st2\<lparr>frame_count := 0, is_recording := True,
                                session_started := False,
                                waiting_for_first_coordinate := True,
                                recording_start_time := now\<rparr>
                  in ui_log_add ModAcquire LOG_INFO st3)))"

definition send_command :: "command \<Rightarrow> ui_state \<Rightarrow> ui_state" where
  "send_command c st =
     (if tcp_client_socket st then ui_log_add ModCommand LOG_INFO (st\<lparr>sent := sent st @ [c]\<rparr>)
      else st)"

definition on_record_clicked :: "real \<Rightarrow> bool \<Rightarrow> ui_state \<Rightarrow> ui_state" where
  "on_record_clicked now mkdir_ok st =
     (if record_btn st then
        (start_recording now mkdir_ok (send_command START st))
          \<lparr>fps_cnt := 0, t_start := now, fps_timer_active := True\<rparr>
      else
        (let st1 = (send_command STOP st)\<lparr>fps_timer_active := False\<rparr>;
             (err, st2) = stop_recording st1
         in case err of
              None \<Rightarrow> st2
            | Some e \<Rightarrow> (ui_log_add ModAcquire LOG_ERROR st2)\<lparr>record_btn := False\<rparr>))"

definition handle_frame :: "frame \<Rightarrow> real \<Rightarrow> bool \<Rightarrow> ui_state \<Rightarrow> ui_state" where
  "handle_frame data now mkdir_ok st =
     (if \<not> is_recording st then st
      else
        (let st1 = st\<lparr>fps_cnt := fps_cnt st + 1\<rparr>
         in if waiting_for_first_coordinate st1 then
              (if first_frame_data st1 = None
               then ui_log_add ModProcess LOG_INFO
                      (st1\<lparr>first_frame_data := Some data,
                           frame_buffer := set_reference data (frame_buffer st1)\<rparr>)
               else st1)
            else
              (let st2 = st1\<lparr>frame_count := frame_count st1 + 1, current_frame := Some data,
                             frame_buffer := add_frame data (frame_buffer st1),
                             recorded_frames := recorded_frames st1 @ [data]\<rparr>;
                   st3 = save_current_frame (ui_log_add ModAcquire LOG_INFO st2)
               in if frame_count_spin st3 \<le> frame_count st3
                  then on_record_clicked now mkdir_ok
                         ((ui_log_add ModAcquire LOG_INFO st3)\<lparr>record_btn := False\<rparr>)
                  else st3)))"

subsection \<open>Timing mode arbiter\<close>

datatype mode_decision = NoDecision | ForceDeclared | AllowMeasured

definition auto_switch_decision :: "real \<Rightarrow> real \<Rightarrow> real \<Rightarrow> mode_decision" where
  "auto_switch_decision measured declared delay =
     (if measured > 0 then
        (let fps_diff = \<bar>measured - declared\<bar>
         in if delay > AUTO_SWITCH_THRESHOLD_MS \<or> fps_diff > FPS_DIFF_THRESHOLD
            then ForceDeclared else AllowMeasured)
      else NoDecision)"

text \<open>
  \<open>kalman_mode_btn.setChecked(v)\<close> emits \<open>toggled\<close> only when the checked state changes;
  the slot is \<open>_toggle_kalman_mode\<close>.
\<close>

definition toggle_kalman_mode :: "bool \<Rightarrow> ui_state \<Rightarrow> ui_state" where
  "toggle_kalman_mode checked st =
     ui_log_add ModSetting LOG_INFO
       (st\<lparr>coordinate_predictor := set_fps (push_fps st) (Some checked) (coordinate_predictor st)\<rparr>)"

definition set_kalman_mode_btn :: "bool \<Rightarrow> ui_state \<Rightarrow> ui_state" where
  "set_kalman_mode_btn checked st =
     (if kalman_mode_btn st = checked then st
      else toggle_kalman_mode checked (st\<lparr>kalman_mode_btn := checked\<rparr>))"

definition auto_switch :: "ui_state \<Rightarrow> ui_state" where
  "auto_switch st =
     (if auto_switch_check st then
        (case auto_switch_decision (measured_fps st) (push_fps st) (delay_ms st) of
           NoDecision \<Rightarrow> st
         | ForceDeclared \<Rightarrow>
             (if \<not> use_fixed_fps (coordinate_predictor st)
              then ui_log_add ModAutoSwitch LOG_WARNING (set_kalman_mode_btn True st) else st)
         | AllowMeasured \<Rightarrow>
             (if use_fixed_fps (coordinate_predictor st)
              then ui_log_add ModAutoSwitch LOG_INFO (set_kalman_mode_btn False st) else st))
      else st)"

subsection \<open>Pose messages\<close>

text \<open>Subtraction of one-dimensional arrays with numpy's broadcasting.\<close>

definition np_sub :: "vec \<Rightarrow> vec \<Rightarrow> py_error + vec" where
  "np_sub u v =
     (if length u = length v then Inr (map2 (-) u v)
      else if length u = 1 then Inr (map (\<lambda>b. u ! 0 - b) v)
      else if length v = 1 then Inr (map (\<lambda>a. a - v ! 0) u)
      else Inl ValueError)"

text \<open>The slice assignment \<open>arr[:6] = c\<close>.\<close>

definition assign_first6 :: "vec \<Rightarrow> vec \<Rightarrow> py_error + vec" where
  "assign_first6 c arr =
     (let n = min 6 (length arr)
      in if length c = n then Inr (c @ drop n arr)
         else if length c = 1 then Inr (replicate n (c ! 0) @ drop n arr)
         else Inl ValueError)"

text \<open>
  \<open>_create_session_with_coordinate\<close>; \<open>start_session_ok\<close> is what \<open>DataSaver.start_session\<close>
  returns. Both log lines format \<open>coord[0]\<close>, \<open>coord[1]\<close>, \<open>coord[2]\<close>.
\<close>

definition create_session_with_coordinate ::
  "vec \<Rightarrow> bool \<Rightarrow> ui_state \<Rightarrow> py_error + ui_state" where
  "create_session_with_coordinate coord start_session_ok st =
     (case assign_first6 coord (heap st (current_coordinate st)) of
        Inl e \<Rightarrow> Inl e
      | Inr arr \<Rightarrow>
          (let st1 = st\<lparr>heap := (heap st)(current_coordinate st := arr)\<rparr>
           in if auto_save_check st1 \<and> \<not> start_session_ok then
                (let st2 = (ui_log_add ModAcquire LOG_ERROR (st1\<lparr>data_saver := True\<rparr>))
                             \<lparr>record_btn := False\<rparr>;
                     (err, st3) = stop_recording st2
                 in case err of Some e \<Rightarrow> Inl e | None \<Rightarrow> Inr st3)
              else
                (let st2 = (if auto_save_check st1 then st1\<lparr>data_saver := True\<rparr> else st1);
                     st3 = st2\<lparr>session_started := True, waiting_for_first_coordinate := False\<rparr>
                 in if length coord < 3 then Inl IndexError
                    else (case first_frame_data st3 of
                            Some data \<Rightarrow>
                              Inr ((process_cached_first_frame data
                                      (ui_log_add ModAcquire LOG_INFO st3))
                                     \<lparr>first_frame_data := None\<rparr>)
                          | None \<Rightarrow> Inr (ui_log_add ModAcquire LOG_INFO st3)))))"

definition note_repeat :: "bool \<Rightarrow> ui_state \<Rightarrow> ui_state" where
  "note_repeat is_coord_updated st =
     (if \<not> is_coord_updated then
        (let st1 = st\<lparr>coord_repeat_count := coord_repeat_count st + 1\<rparr>
         in if coord_repeat_count st1 = 1 then ui_log_add ModCoord LOG_DEBUG st1 else st1)
      else
        (let st1 = (if coord_repeat_count st > 0 then ui_log_add ModCoord LOG_DEBUG st else st)
         in st1\<lparr>coord_repeat_count := 0\<rparr>))"

text \<open>
  \<open>_handle_coordinate\<close>, in the order of the source: remember the declared fps, detect a
  repeated coordinate, run the estimator, arbitrate the timing mode, create the session on
  the first pose (\<open>session_creation\<close>), and append to the playback controller's lists
  (\<open>record_pose\<close>). \<open>full_state\<close> is the address of the fresh copy that \<open>get_current_state\<close>
  returns; \<open>self.current_coordinate = full_state\<close> makes both names refer to that one
  array. \<open>now\<close> is the value of \<open>time.time()\<close> in the session branch.
\<close>

definition session_creation :: "vec \<Rightarrow> real \<Rightarrow> bool \<Rightarrow> ui_state \<Rightarrow> py_error + ui_state" where
  "session_creation coord now start_session_ok st =
     (if waiting_for_first_coordinate st \<and> is_recording st then
        (let elapsed = now - recording_start_time st;
             is_timeout = elapsed > 10.0
         in case create_session_with_coordinate (take 6 coord) start_session_ok st of
              Inl e \<Rightarrow> Inl e
            | Inr st1 \<Rightarrow>
                Inr (ui_log_add ModAcquire (if is_timeout then LOG_WARNING else LOG_INFO) st1))
      else Inr st)"

definition record_pose :: "addr \<Rightarrow> real \<Rightarrow> ui_state \<Rightarrow> ui_state" where
  "record_pose full_state fps st =
     (if is_recording st \<and> session_started st then
        st\<lparr>playback_controller :=
             (playback_controller st)
               \<lparr>pb_coords := pb_coords (playback_controller st) @ [full_state],
                pb_fps_values := pb_fps_values (playback_controller st) @ [fps]\<rparr>\<rparr>
      else st)"

definition handle_coordinate ::
  "vec \<Rightarrow> real \<Rightarrow> real \<Rightarrow> real \<Rightarrow> bool \<Rightarrow> ui_state \<Rightarrow> py_error + ui_state" where
  "handle_coordinate coord timestamp fps now start_session_ok st =
     (let st1 = st\<lparr>push_fps := fps,
                    coordinate_predictor := set_fps fps None (coordinate_predictor st)\<rparr>
      in case np_sub (take 6 coord) (last_received_coord st1) of
           Inl e \<Rightarrow> Inl e
         | Inr coord_delta \<Rightarrow>
             (let is_coord_updated = list_ex (\<lambda>v. abs v > 1 / 1000000) coord_delta;
                  st2 = (note_repeat is_coord_updated st1)\<lparr>last_received_coord := take 6 coord\<rparr>
              in case update (take 6 coord) timestamp is_coord_updated (coordinate_predictor st2) of
                   Inl e \<Rightarrow> Inl e
                 | Inr p \<Rightarrow>
                     (let full_state = next_addr st2;
                          st3 = st2\<lparr>coordinate_predictor := p,
                                    heap := (heap st2)(full_state := get_current_state p),
                                    next_addr := full_state + 1,
                                    current_coordinate := full_state\<rparr>;
                          st4 = auto_switch st3
                      in case session_creation coord now start_session_ok st4 of
                           Inl e \<Rightarrow> Inl e
                         | Inr st5 \<Rightarrow> Inr (record_pose full_state fps st5))))"


subsection \<open>The estimator inside the handler\<close>

lemma vec_lengths [simp]:
  "length (vec_add u v) = min (length u) (length v)"
  "length (vec_sub u v) = min (length u) (length v)"
  "length (mat_vec M v) = length M"
  "length (mat_mul M N) = length M"
  "length (mkA d) = 12" "length (blk a b c) = 12"
  by (simp_all add: vec_add_def vec_sub_def mat_vec_def mat_mul_def mkA_def blk_def)

lemma update_x_length:
  assumes ok: "kf_ok p" and len: "length z = 6" and up: "update z t fresh p = Inr p'"
  shows "length (kf_x p') = 12"
proof -
  from ok obtain d a b c where
    A: "kf_A p = mkA d" and P: "kf_P p = blk a b c" and
    psd: "0 \<le> a" "0 \<le> c" "b * b \<le> a * c"
    by (rule kf_okE)
  from update_on_blk [OF len A P psd, of t fresh] up
  show ?thesis by auto
qed


text \<open>
  What the handlers keep true: the estimator's covariance has its block form, the last
  received coordinate has six entries, and no frame has been recorded while the first
  pose is still awaited.
\<close>

definition ui_ok :: "ui_state \<Rightarrow> bool" where
  "ui_ok st =
     (kf_ok (coordinate_predictor st) \<and> length (last_received_coord st) = 6 \<and>
      (waiting_for_first_coordinate st \<and> is_recording st \<longrightarrow> recorded_frames st = []))"

lemma auto_switch_no_decision:
  "measured_fps st \<le> 0 \<Longrightarrow> auto_switch st = st"
  by (simp add: auto_switch_def auto_switch_decision_def)

lemma set_fps_mode_None [simp]: "use_fixed_fps (set_fps fps None p) = use_fixed_fps p"
  by (simp add: set_fps_def Let_def)

lemma update_mode:
  "update z t fresh p = Inr p' \<Longrightarrow> use_fixed_fps p' = use_fixed_fps p"
  by (auto simp: update_def prepare_def kalman_step_def Let_def split_beta
           split: if_splits sum.splits)

lemma note_repeat_fields [simp]:
  "coordinate_predictor (note_repeat u st) = coordinate_predictor st"
  "kalman_mode_btn (note_repeat u st) = kalman_mode_btn st"
  "measured_fps (note_repeat u st) = measured_fps st"
  "next_addr (note_repeat u st) = next_addr st"
  "heap (note_repeat u st) = heap st"
  "is_recording (note_repeat u st) = is_recording st"
  "waiting_for_first_coordinate (note_repeat u st) = waiting_for_first_coordinate st"
  "session_started (note_repeat u st) = session_started st"
  "first_frame_data (note_repeat u st) = first_frame_data st"
  "recorded_frames (note_repeat u st) = recorded_frames st"
  "playback_controller (note_repeat u st) = playback_controller st"
  "auto_save_check (note_repeat u st) = auto_save_check st"
  "auto_switch_check (note_repeat u st) = auto_switch_check st"
  "push_fps (note_repeat u st) = push_fps st"
  "delay_ms (note_repeat u st) = delay_ms st"
  "recording_start_time (note_repeat u st) = recording_start_time st"
  by (simp_all add: note_repeat_def ui_log_add_def Let_def)

lemma stop_recording_fields:
  "stop_recording st = (err, st') \<Longrightarrow>
     coordinate_predictor st' = coordinate_predictor st \<and>
     kalman_mode_btn st' = kalman_mode_btn st \<and>
     pb_coords (playback_controller st') = pb_coords (playback_controller st) \<and>
     pb_fps_values (playback_controller st') = pb_fps_values (playback_controller st) \<and>
     recorded_frames st' = recorded_frames st \<and>
     (is_recording st \<longrightarrow> \<not> is_recording st')"
  by (auto simp: stop_recording_def set_session_data_def ui_log_add_def Let_def
           split: if_splits option.splits prod.splits)

lemma process_cached_first_frame_fields [simp]:
  "coordinate_predictor (process_cached_first_frame f st) = coordinate_predictor st"
  "kalman_mode_btn (process_cached_first_frame f st) = kalman_mode_btn st"
  "playback_controller (process_cached_first_frame f st) = playback_controller st"
  "is_recording (process_cached_first_frame f st) = is_recording st"
  "session_started (process_cached_first_frame f st) = session_started st"
  "waiting_for_first_coordinate (process_cached_first_frame f st) =
     waiting_for_first_coordinate st"
  "recorded_frames (process_cached_first_frame f st) = recorded_frames st @ [f]"
  "heap (process_cached_first_frame f st) = heap st"
  "frame_count (process_cached_first_frame f st) = 1"
  by (simp_all add: process_cached_first_frame_def save_current_frame_def ui_log_add_def Let_def
        split: option.splits)

lemma create_session_mode:
  "create_session_with_coordinate c ok st = Inr st' \<Longrightarrow>
     coordinate_predictor st' = coordinate_predictor st \<and>
     kalman_mode_btn st' = kalman_mode_btn st \<and>
     pb_coords (playback_controller st') = pb_coords (playback_controller st) \<and>
     pb_fps_values (playback_controller st') = pb_fps_values (playback_controller st)"
  by (auto simp: create_session_with_coordinate_def ui_log_add_def Let_def
           split: sum.splits if_splits option.splits prod.splits
           dest!: stop_recording_fields)


lemma assign_first6_ok:
  "length c = 6 \<Longrightarrow> length arr = 12 \<Longrightarrow> assign_first6 c arr = Inr (c @ drop 6 arr)"
  by (simp add: assign_first6_def)

lemma stop_recording_no_frames:
  "recorded_frames st = [] \<Longrightarrow> fst (stop_recording st) = None"
  by (simp add: stop_recording_def Let_def)

lemma create_session_returns:
  assumes "length (heap st (current_coordinate st)) = 12" "length c = 6"
    and "recorded_frames st = []"
  shows "\<exists>st'. create_session_with_coordinate c ok st = Inr st' \<and>
           last_received_coord st' = last_received_coord st \<and>
           (waiting_for_first_coordinate st' \<longrightarrow> \<not> is_recording st')"
proof (cases "auto_save_check st \<and> \<not> ok")
  case True
  define st2 where "st2 = (ui_log_add ModAcquire LOG_ERROR
     (st\<lparr>heap := (heap st)(current_coordinate st := c @ drop 6 (heap st (current_coordinate st))),
         data_saver := True\<rparr>))\<lparr>record_btn := False\<rparr>"
  obtain err st3 where s3: "stop_recording st2 = (err, st3)" by (cases "stop_recording st2")
  have "recorded_frames st2 = []" using assms by (simp add: st2_def ui_log_add_def)
  then have err: "err = None" using stop_recording_no_frames [of st2] s3 by simp
  have cs: "create_session_with_coordinate c ok st = Inr st3"
    using True assms s3 err
    by (simp add: create_session_with_coordinate_def assign_first6_ok Let_def flip: st2_def)
  have "last_received_coord st3 = last_received_coord st2 \<and> \<not> is_recording st3"
    using s3 by (auto simp: stop_recording_def set_session_data_def ui_log_add_def Let_def
                      split: if_splits option.splits prod.splits)
  then show ?thesis using cs by (simp add: st2_def ui_log_add_def)
next
  case False
  then show ?thesis
    using assms
    by (auto simp: create_session_with_coordinate_def assign_first6_ok Let_def ui_log_add_def
          process_cached_first_frame_def save_current_frame_def split: option.splits)
qed


lemma set_kalman_mode_btn_fields [simp]:
  "heap (set_kalman_mode_btn m st) = heap st"
  "current_coordinate (set_kalman_mode_btn m st) = current_coordinate st"
  "next_addr (set_kalman_mode_btn m st) = next_addr st"
  "is_recording (set_kalman_mode_btn m st) = is_recording st"
  "waiting_for_first_coordinate (set_kalman_mode_btn m st) = waiting_for_first_coordinate st"
  "session_started (set_kalman_mode_btn m st) = session_started st"
  "first_frame_data (set_kalman_mode_btn m st) = first_frame_data st"
  "recorded_frames (set_kalman_mode_btn m st) = recorded_frames st"
  "playback_controller (set_kalman_mode_btn m st) = playback_controller st"
  "auto_save_check (set_kalman_mode_btn m st) = auto_save_check st"
  "last_received_coord (set_kalman_mode_btn m st) = last_received_coord st"
  "recording_start_time (set_kalman_mode_btn m st) = recording_start_time st"
  "kf_ok (coordinate_predictor (set_kalman_mode_btn m st)) = kf_ok (coordinate_predictor st)"
  "kf_x (coordinate_predictor (set_kalman_mode_btn m st)) = kf_x (coordinate_predictor st)"
  by (simp_all add: set_kalman_mode_btn_def toggle_kalman_mode_def ui_log_add_def set_fps_ok
        set_fps_x)

lemma auto_switch_fields [simp]:
  "heap (auto_switch st) = heap st"
  "current_coordinate (auto_switch st) = current_coordinate st"
  "next_addr (auto_switch st) = next_addr st"
  "is_recording (auto_switch st) = is_recording st"
  "waiting_for_first_coordinate (auto_switch st) = waiting_for_first_coordinate st"
  "session_started (auto_switch st) = session_started st"
  "first_frame_data (auto_switch st) = first_frame_data st"
  "recorded_frames (auto_switch st) = recorded_frames st"
  "playback_controller (auto_switch st) = playback_controller st"
  "auto_save_check (auto_switch st) = auto_save_check st"
  "last_received_coord (auto_switch st) = last_received_coord st"
  "recording_start_time (auto_switch st) = recording_start_time st"
  "kf_ok (coordinate_predictor (auto_switch st)) = kf_ok (coordinate_predictor st)"
  "kf_x (coordinate_predictor (auto_switch st)) = kf_x (coordinate_predictor st)"
  by (simp_all add: auto_switch_def ui_log_add_def split: mode_decision.splits)

lemma record_pose_fields [simp]:
  "coordinate_predictor (record_pose a fps st) = coordinate_predictor st"
  "kalman_mode_btn (record_pose a fps st) = kalman_mode_btn st"
  "last_received_coord (record_pose a fps st) = last_received_coord st"
  "is_recording (record_pose a fps st) = is_recording st"
  "waiting_for_first_coordinate (record_pose a fps st) = waiting_for_first_coordinate st"
  "session_started (record_pose a fps st) = session_started st"
  "recorded_frames (record_pose a fps st) = recorded_frames st"
  "heap (record_pose a fps st) = heap st"
  "ui_log (record_pose a fps st) = ui_log st"
  by (simp_all add: record_pose_def)

lemma session_creation_returns:
  assumes "length (heap st (current_coordinate st)) = 12" "6 \<le> length coord"
    and "waiting_for_first_coordinate st \<and> is_recording st \<longrightarrow> recorded_frames st = []"
  shows "\<exists>st'. session_creation coord now ok st = Inr st' \<and>
           coordinate_predictor st' = coordinate_predictor st \<and>
           last_received_coord st' = last_received_coord st \<and>
           (waiting_for_first_coordinate st' \<and> is_recording st' \<longrightarrow> recorded_frames st' = [])"
proof (cases "waiting_for_first_coordinate st \<and> is_recording st")
  case False
  then show ?thesis using assms by (auto simp: session_creation_def)
next
  case True
  have len: "length (take 6 coord) = 6" using assms(2) by simp
  from create_session_returns [OF assms(1) len, of ok] True assms(3)
  obtain st1 where st1: "create_session_with_coordinate (take 6 coord) ok st = Inr st1"
    "last_received_coord st1 = last_received_coord st"
    "waiting_for_first_coordinate st1 \<longrightarrow> \<not> is_recording st1"
    by auto
  from create_session_mode [OF st1(1)] st1 True show ?thesis
    by (auto simp: session_creation_def Let_def ui_log_add_def)
qed

lemma handle_coordinate_returns:
  assumes ok: "ui_ok st" and len: "length coord = COORD_DIMENSION"
  shows "\<exists>st'. handle_coordinate coord timestamp fps now start_session_ok st = Inr st' \<and> ui_ok st'"
proof -
  define st1 where "st1 = st\<lparr>push_fps := fps,
                    coordinate_predictor := set_fps fps None (coordinate_predictor st)\<rparr>"
  have l6: "length (take 6 coord) = 6" "6 \<le> length coord"
    using len by (simp_all add: COORD_DIMENSION_def)
  have last: "length (last_received_coord st1) = 6"
    using ok by (simp add: ui_ok_def st1_def)
  define coord_delta where "coord_delta = map2 (-) (take 6 coord) (last_received_coord st1)"
  have sub: "np_sub (take 6 coord) (last_received_coord st1) = Inr coord_delta"
    using l6 last by (simp add: np_sub_def coord_delta_def)
  define upd where "upd = list_ex (\<lambda>v. abs v > 1 / 1000000) coord_delta"
  define st2 where "st2 = (note_repeat upd st1)\<lparr>last_received_coord := take 6 coord\<rparr>"
  have ok2: "kf_ok (coordinate_predictor st2)"
    using ok by (simp add: st2_def st1_def ui_ok_def set_fps_ok)
  from update_kf_ok [OF ok2, of "take 6 coord" timestamp upd]
  obtain p where p: "update (take 6 coord) timestamp upd (coordinate_predictor st2) = Inr p"
    "kf_ok p" by blast
  have xlen: "length (kf_x p) = 12"
    using update_x_length [OF ok2 l6(1) p(1)] .
  define st3 where "st3 = st2\<lparr>coordinate_predictor := p,
                                    heap := (heap st2)(next_addr st2 := get_current_state p),
                                    next_addr := next_addr st2 + 1,
                                    current_coordinate := next_addr st2\<rparr>"
  define st4 where "st4 = auto_switch st3"
  have h4: "length (heap st4 (current_coordinate st4)) = 12"
    using xlen by (simp add: st4_def st3_def get_current_state_def)
  have w4: "waiting_for_first_coordinate st4 \<and> is_recording st4 \<longrightarrow> recorded_frames st4 = []"
    using ok by (simp add: st4_def st3_def st2_def st1_def ui_ok_def)
  from session_creation_returns [OF h4 l6(2) w4, of now start_session_ok]
  obtain st5 where st5: "session_creation coord now start_session_ok st4 = Inr st5"
    "coordinate_predictor st5 = coordinate_predictor st4"
    "last_received_coord st5 = last_received_coord st4"
    "waiting_for_first_coordinate st5 \<and> is_recording st5 \<longrightarrow> recorded_frames st5 = []"
    by blast
  have res: "handle_coordinate coord timestamp fps now start_session_ok st =
       Inr (record_pose (next_addr st2) fps st5)"
    by (simp only: handle_coordinate_def Let_def sub p(1) st5(1) sum.case
          flip: st1_def upd_def st2_def st3_def st4_def)
  have "ui_ok (record_pose (next_addr st2) fps st5)"
    using st5 p(2) l6 by (simp add: ui_ok_def st4_def st3_def st2_def)
  with res show ?thesis by blast
qed


lemma handle_coordinate_mode:
  assumes "measured_fps st \<le> 0"
    and "handle_coordinate coord timestamp fps now start_session_ok st = Inr st'"
  shows "use_fixed_fps (coordinate_predictor st') = use_fixed_fps (coordinate_predictor st) \<and>
         kalman_mode_btn st' = kalman_mode_btn st"
proof -
  define st1 where "st1 = st\<lparr>push_fps := fps,
                    coordinate_predictor := set_fps fps None (coordinate_predictor st)\<rparr>"
  from assms(2) obtain coord_delta where
    sub: "np_sub (take 6 coord) (last_received_coord st1) = Inr coord_delta"
    by (auto simp: handle_coordinate_def Let_def st1_def split: sum.splits)
  define upd where "upd = list_ex (\<lambda>v. abs v > 1 / 1000000) coord_delta"
  define st2 where "st2 = (note_repeat upd st1)\<lparr>last_received_coord := take 6 coord\<rparr>"
  from assms(2) obtain p where
    p: "update (take 6 coord) timestamp upd (coordinate_predictor st2) = Inr p"
    unfolding handle_coordinate_def
    by (simp only: Let_def sub sum.case flip: st1_def upd_def st2_def) (auto split: sum.splits)
  define st3 where "st3 = st2\<lparr>coordinate_predictor := p,
                                    heap := (heap st2)(next_addr st2 := get_current_state p),
                                    next_addr := next_addr st2 + 1,
                                    current_coordinate := next_addr st2\<rparr>"
  have m3: "measured_fps st3 \<le> 0"
    using assms(1) by (simp add: st3_def st2_def st1_def)
  from assms(2) obtain st5 where
    st5: "session_creation coord now start_session_ok st3 = Inr st5"
      "st' = record_pose (next_addr st2) fps st5"
    unfolding handle_coordinate_def
    by (simp only: Let_def sub p sum.case auto_switch_no_decision [OF m3]
          flip: st1_def upd_def st2_def st3_def) (auto split: sum.splits)
  have "coordinate_predictor st5 = coordinate_predictor st3 \<and>
        kalman_mode_btn st5 = kalman_mode_btn st3"
    using st5(1) create_session_mode
    by (auto simp: session_creation_def Let_def ui_log_add_def split: if_splits sum.splits)
  then show ?thesis
    using update_mode [OF p] by (simp add: st5(2) st3_def st2_def st1_def)
qed

text \<open>
  C10. With automatic arbitration switched on and a measured fps of zero or less, the
  arbiter takes no decision: a pose message (twelve values, on a state the handlers have
  produced) is handled to the end, and neither the estimator's time-base mode nor the
  mode button has changed afterwards, whatever the delay is.
\<close>

theorem no_mode_decision_without_measured_fps:
  assumes "auto_switch_check st" and "measured_fps st \<le> 0"
    and "ui_ok st" and "length coord = COORD_DIMENSION"
  shows "auto_switch_decision (measured_fps st) fps (delay_ms st) = NoDecision \<and>
         (\<exists>st'. handle_coordinate coord timestamp fps now start_session_ok st = Inr st' \<and>
            use_fixed_fps (coordinate_predictor st') = use_fixed_fps (coordinate_predictor st) \<and>
            kalman_mode_btn st' = kalman_mode_btn st)"
proof -
  from handle_coordinate_returns [OF assms(3,4)]
  obtain st' where st': "handle_coordinate coord timestamp fps now start_session_ok st = Inr st'"
    by blast
  from handle_coordinate_mode [OF assms(2) st'] st' assms(2)
  show ?thesis by (auto simp: auto_switch_decision_def)
qed


subsection \<open>Concrete states\<close>

text \<open>
  \<open>CoordinatePredictor(initial_fps=30.0)\<close> with the window's log callback installed, and the
  window after construction with the default settings. \<open>pose_one\<close> is a pose message as
  \<open>TcpServer\<close> emits it (twelve values) and \<open>frame_of v\<close> a 64x64 frame filled with \<open>v\<close>.
\<close>

definition predictor_30 :: coordinate_predictor where
  "predictor_30 =
     \<lparr>kf_A = eye state_dim, kf_R = R_base, kf_x = zeros state_dim,
      kf_P = mat_scale (eye state_dim) 100, last_update_time = None, state_history = [],
      current_fps = 30, default_dt = 1 / 30, use_fixed_fps = True, log_callback = True,
      log_out = []\<rparr>"

definition ui_initial :: ui_state where
  "ui_initial =
     \<lparr>tcp_client_socket = True, sent = [], frame_buffer = new_frame_buffer, data_saver = False,
      save_frame_raises = False, saved_frames = [], current_frame = None, recorded_frames = [], is_recording = False,
      reference_frame_for_playback = None, is_playback_mode = False,
      heap = (\<lambda>a. zeros COORD_DIMENSION), next_addr = 1, current_coordinate = 0,
      push_fps = 30, last_received_coord = zeros 6, coord_repeat_count = 0,
      session_started = False, waiting_for_first_coordinate = False, first_frame_data = None,
      coordinate_predictor = predictor_30, fps_timer_active = False, fps_cnt = 0, t_start = 0,
      delay_ms = 0, measured_fps = 0, is_calibration_mode = False,
      playback_controller =
        \<lparr>pb_frames = [], pb_coords = [], pb_fps_values = [], pb_current_index = 0\<rparr>,
      frame_count = 0, recording_start_time = 0, record_btn = False, kalman_mode_btn = True,
      auto_switch_check = False, auto_save_check = True, frame_count_spin = 60,
      path_edit = ''D:/thz'', ui_log = []\<rparr>"

definition pose_one :: vec where
  "pose_one = [1, 2, 3, 4, 5, 6, 30, 0, 0, 0, 0, 0]"

lemma predictor_30_ok: "kf_ok predictor_30"
proof -
  have "new_predictor 30 = Inr (predictor_30\<lparr>log_callback := False\<rparr>)"
    by (simp add: new_predictor_def predictor_30_def)
  then have "kf_ok (predictor_30\<lparr>log_callback := False\<rparr>)" by (rule new_predictor_ok)
  then show ?thesis by (simp add: kf_ok_def)
qed

lemma ui_initial_ok: "ui_ok ui_initial"
  using predictor_30_ok by (simp add: ui_ok_def ui_initial_def zeros_def)

lemma pose_one_length: "length pose_one = COORD_DIMENSION"
  by (simp add: pose_one_def COORD_DIMENSION_def)

text \<open>A window in measured mode with arbitration on, no fps measured yet, and a long delay.\<close>

definition ui_unmeasured :: ui_state where
  "ui_unmeasured =
     ui_initial\<lparr>auto_switch_check := True, delay_ms := 150, kalman_mode_btn := False,
                coordinate_predictor := predictor_30\<lparr>use_fixed_fps := False\<rparr>\<rparr>"

lemma ui_unmeasured_ok: "ui_ok ui_unmeasured"
  using ui_initial_ok by (simp add: ui_ok_def ui_unmeasured_def ui_initial_def kf_ok_def)

theorem no_mode_decision_without_measured_fps_witness:
  "auto_switch_check ui_unmeasured \<and> measured_fps ui_unmeasured \<le> 0 \<and>
   AUTO_SWITCH_THRESHOLD_MS < delay_ms ui_unmeasured \<and>
   (\<exists>st'. handle_coordinate pose_one 1 30 1 True ui_unmeasured = Inr st' \<and>
      \<not> use_fixed_fps (coordinate_predictor st') \<and> \<not> kalman_mode_btn st')"
proof -
  have facts: "auto_switch_check ui_unmeasured" "measured_fps ui_unmeasured \<le> 0"
    "AUTO_SWITCH_THRESHOLD_MS < delay_ms ui_unmeasured"
    "\<not> use_fixed_fps (coordinate_predictor ui_unmeasured)" "\<not> kalman_mode_btn ui_unmeasured"
    by (simp_all add: ui_unmeasured_def ui_initial_def AUTO_SWITCH_THRESHOLD_MS_def)
  from no_mode_decision_without_measured_fps
         [OF facts(1,2) ui_unmeasured_ok pose_one_length, of 30 1 1 True]
  show ?thesis using facts by auto
qed














subsection \<open>The first pose of a session\<close>

lemma create_session_accepts:
  assumes "length (heap st (current_coordinate st)) = 12" "length c = 6"
    and "auto_save_check st \<longrightarrow> ok"
  shows "\<exists>s. create_session_with_coordinate c ok st = Inr s \<and>
           session_started s \<and> \<not> waiting_for_first_coordinate s \<and>
           is_recording s = is_recording st \<and>
           playback_controller s = playback_controller st \<and>
           coordinate_predictor s = coordinate_predictor st \<and>
           last_received_coord s = last_received_coord st \<and>
           recorded_frames s =
             recorded_frames st @ (case first_frame_data st of None \<Rightarrow> [] | Some f \<Rightarrow> [f]) \<and>
           heap s = (heap st)(current_coordinate st := c @ drop 6 (heap st (current_coordinate st))) \<and>
           first_frame_data s = None"
  using assms
  by (auto simp: create_session_with_coordinate_def assign_first6_ok Let_def ui_log_add_def
        process_cached_first_frame_def save_current_frame_def split: option.splits)

definition first_pose_level :: "real \<Rightarrow> ui_state \<Rightarrow> log_level" where
  "first_pose_level now st =
     (if now - recording_start_time st > 10 then LOG_WARNING else LOG_INFO)"

lemma handle_coordinate_first_pose:
  assumes ok: "ui_ok st" and len: "length coord = COORD_DIMENSION"
    and wait: "waiting_for_first_coordinate st" "is_recording st"
    and saver: "auto_save_check st \<longrightarrow> start_session_ok"
  shows "\<exists>s. (\<forall>now. handle_coordinate coord timestamp fps now start_session_ok st =
                  Inr (record_pose (next_addr st) fps
                         (ui_log_add ModAcquire (first_pose_level now st) s))) \<and>
           session_started s \<and> \<not> waiting_for_first_coordinate s \<and> is_recording s \<and>
           playback_controller s = playback_controller st \<and>
           recorded_frames s =
             recorded_frames st @ (case first_frame_data st of None \<Rightarrow> [] | Some f \<Rightarrow> [f]) \<and>
           heap s (next_addr st) = take 6 coord @ drop 6 (kf_x (coordinate_predictor s)) \<and>
           (\<exists>p. update (take 6 coord) timestamp
                    (list_ex (\<lambda>v. abs v > 1 / 1000000)
                       (map2 (-) (take 6 coord) (last_received_coord st)))
                    (set_fps fps None (coordinate_predictor st)) = Inr p \<and>
                kf_x (coordinate_predictor s) = kf_x p) \<and>
           kf_ok (coordinate_predictor s) \<and> last_received_coord s = take 6 coord"
proof -
  define st1 where "st1 = st\<lparr>push_fps := fps,
                    coordinate_predictor := set_fps fps None (coordinate_predictor st)\<rparr>"
  have l6: "length (take 6 coord) = 6" "6 \<le> length coord"
    using len by (simp_all add: COORD_DIMENSION_def)
  have last: "length (last_received_coord st1) = 6"
    using ok by (simp add: ui_ok_def st1_def)
  define coord_delta where "coord_delta = map2 (-) (take 6 coord) (last_received_coord st1)"
  have sub: "np_sub (take 6 coord) (last_received_coord st1) = Inr coord_delta"
    using l6 last by (simp add: np_sub_def coord_delta_def)
  define upd where "upd = list_ex (\<lambda>v. abs v > 1 / 1000000) coord_delta"
  define st2 where "st2 = (note_repeat upd st1)\<lparr>last_received_coord := take 6 coord\<rparr>"
  have ok2: "kf_ok (coordinate_predictor st2)"
    using ok by (simp add: st2_def st1_def ui_ok_def set_fps_ok)
  from update_kf_ok [OF ok2, of "take 6 coord" timestamp upd]
  obtain p where p: "update (take 6 coord) timestamp upd (coordinate_predictor st2) = Inr p"
    "kf_ok p" "use_fixed_fps p = use_fixed_fps (coordinate_predictor st2)" by blast
  have xlen: "length (kf_x p) = 12"
    using update_x_length [OF ok2 l6(1) p(1)] .
  define st3 where "st3 = st2\<lparr>coordinate_predictor := p,
                                    heap := (heap st2)(next_addr st2 := get_current_state p),
                                    next_addr := next_addr st2 + 1,
                                    current_coordinate := next_addr st2\<rparr>"
  define st4 where "st4 = auto_switch st3"
  have h4: "heap st4 (current_coordinate st4) = kf_x p" "current_coordinate st4 = next_addr st"
    by (simp_all add: st4_def st3_def st2_def st1_def get_current_state_def)
  have h4len: "length (heap st4 (current_coordinate st4)) = 12"
    using xlen h4 by simp
  have w4: "waiting_for_first_coordinate st4" "is_recording st4"
    "auto_save_check st4 \<longrightarrow> start_session_ok"
    "recording_start_time st4 = recording_start_time st"
    using wait saver by (simp_all add: st4_def st3_def st2_def st1_def)
  from create_session_accepts [OF h4len l6(1) w4(3)]
  obtain s where s: "create_session_with_coordinate (take 6 coord) start_session_ok st4 = Inr s"
    "session_started s" "\<not> waiting_for_first_coordinate s" "is_recording s = is_recording st4"
    "playback_controller s = playback_controller st4"
    "coordinate_predictor s = coordinate_predictor st4"
    "last_received_coord s = last_received_coord st4"
    "recorded_frames s =
       recorded_frames st4 @ (case first_frame_data st4 of None \<Rightarrow> [] | Some f \<Rightarrow> [f])"
    "heap s = (heap st4)(current_coordinate st4 :=
                 take 6 coord @ drop 6 (heap st4 (current_coordinate st4)))"
    by blast
  have res: "handle_coordinate coord timestamp fps now start_session_ok st =
       Inr (record_pose (next_addr st) fps (ui_log_add ModAcquire (first_pose_level now st) s))"
    for now
  proof -
    have sc: "session_creation coord now start_session_ok st4 =
        Inr (ui_log_add ModAcquire (first_pose_level now st) s)"
      using w4 s(1) by (simp add: session_creation_def Let_def first_pose_level_def)
    have n2: "next_addr st2 = next_addr st" by (simp add: st2_def st1_def)
    have "handle_coordinate coord timestamp fps now start_session_ok st =
       Inr (record_pose (next_addr st2) fps (ui_log_add ModAcquire (first_pose_level now st) s))"
      by (simp only: handle_coordinate_def Let_def sub p(1) sc sum.case
            flip: st1_def upd_def st2_def st3_def st4_def)
    then show ?thesis by (simp only: n2)
  qed
  have x4: "kf_x (coordinate_predictor st4) = kf_x p" "kf_ok (coordinate_predictor st4)"
    using p(2) by (simp_all add: st4_def st3_def)
  have "heap s (next_addr st) = take 6 coord @ drop 6 (kf_x (coordinate_predictor s))"
    using s(6,9) h4 x4 by simp
  moreover have "playback_controller s = playback_controller st"
    "recorded_frames s =
       recorded_frames st @ (case first_frame_data st of None \<Rightarrow> [] | Some f \<Rightarrow> [f])"
    "last_received_coord s = take 6 coord"
    using s(5,7,8) by (simp_all add: st4_def st3_def st2_def st1_def)
  moreover have "kf_ok (coordinate_predictor s)" using s(6) x4 by simp
  moreover have "\<exists>p. update (take 6 coord) timestamp
                    (list_ex (\<lambda>v. abs v > 1 / 1000000)
                       (map2 (-) (take 6 coord) (last_received_coord st)))
                    (set_fps fps None (coordinate_predictor st)) = Inr p \<and>
                kf_x (coordinate_predictor s) = kf_x p"
    using p(1) x4(1) s(6) unfolding upd_def coord_delta_def
    by (intro exI [of _ p]) (simp add: st2_def st1_def)
  ultimately show ?thesis
    using res s(2,3,4) w4(2) by (intro exI [of _ s]) simp
qed









subsection \<open>Starting, and frames before and after the first pose\<close>

lemma start_recording_awaiting:
  assumes "path_edit st \<noteq> []"
  shows "is_recording (start_recording now True st)"
    "waiting_for_first_coordinate (start_recording now True st)"
    "\<not> session_started (start_recording now True st)"
    "recorded_frames (start_recording now True st) = []"
    "first_frame_data (start_recording now True st) = None"
    "pb_coords (playback_controller (start_recording now True st)) = []"
    "pb_fps_values (playback_controller (start_recording now True st)) = []"
    "coordinate_predictor (start_recording now True st) = coordinate_predictor st"
    "last_received_coord (start_recording now True st) = last_received_coord st"
    "recording_start_time (start_recording now True st) = now"
    "auto_save_check (start_recording now True st) = auto_save_check st"
    "next_addr (start_recording now True st) = next_addr st"
    "frame_count_spin (start_recording now True st) = frame_count_spin st"
  using assms by (simp_all add: start_recording_def Let_def ui_log_add_def)

lemma start_recording_ok: "ui_ok st \<Longrightarrow> ui_ok (start_recording now mkdir_ok st)"
  by (simp add: ui_ok_def start_recording_def Let_def ui_log_add_def)

lemma handle_frame_awaiting:
  assumes "is_recording st" "waiting_for_first_coordinate st"
  shows "handle_frame data now mkdir_ok st =
     (case first_frame_data st of
        None \<Rightarrow> ui_log_add ModProcess LOG_INFO
                  (st\<lparr>fps_cnt := fps_cnt st + 1, first_frame_data := Some data,
                      frame_buffer := set_reference data (frame_buffer st)\<rparr>)
      | Some kept \<Rightarrow> st\<lparr>fps_cnt := fps_cnt st + 1\<rparr>)"
  using assms by (simp add: handle_frame_def Let_def split: option.splits)

lemma on_record_clicked_stop_fields:
  assumes "\<not> record_btn st"
  shows "recorded_frames (on_record_clicked now mkdir_ok st) = recorded_frames st"
    "pb_coords (playback_controller (on_record_clicked now mkdir_ok st)) =
       pb_coords (playback_controller st)"
    "pb_fps_values (playback_controller (on_record_clicked now mkdir_ok st)) =
       pb_fps_values (playback_controller st)"
    "coordinate_predictor (on_record_clicked now mkdir_ok st) = coordinate_predictor st"
    "last_received_coord (on_record_clicked now mkdir_ok st) = last_received_coord st"
    "waiting_for_first_coordinate (on_record_clicked now mkdir_ok st) =
       waiting_for_first_coordinate st"
  using assms
  by (auto simp: on_record_clicked_def send_command_def stop_recording_def set_session_data_def
        ui_log_add_def Let_def split: option.splits prod.splits if_splits)

lemma save_current_frame_fields [simp]:
  "recorded_frames (save_current_frame st) = recorded_frames st"
  "playback_controller (save_current_frame st) = playback_controller st"
  "coordinate_predictor (save_current_frame st) = coordinate_predictor st"
  "last_received_coord (save_current_frame st) = last_received_coord st"
  "waiting_for_first_coordinate (save_current_frame st) = waiting_for_first_coordinate st"
  "frame_count (save_current_frame st) = frame_count st"
  "frame_count_spin (save_current_frame st) = frame_count_spin st"
  "record_btn (save_current_frame st) = record_btn st"
  "is_recording (save_current_frame st) = is_recording st"
  "session_started (save_current_frame st) = session_started st"
  by (simp_all add: save_current_frame_def ui_log_add_def split: option.splits)

lemma handle_frame_recording:
  assumes "is_recording st" "\<not> waiting_for_first_coordinate st"
  shows "recorded_frames (handle_frame data now mkdir_ok st) = recorded_frames st @ [data]"
    "pb_coords (playback_controller (handle_frame data now mkdir_ok st)) =
       pb_coords (playback_controller st)"
    "pb_fps_values (playback_controller (handle_frame data now mkdir_ok st)) =
       pb_fps_values (playback_controller st)"
  using assms
  by (simp_all add: handle_frame_def Let_def on_record_clicked_stop_fields ui_log_add_def)

lemma handle_frame_series:
  "pb_coords (playback_controller (handle_frame data now mkdir_ok st)) =
     pb_coords (playback_controller st)"
  "pb_fps_values (playback_controller (handle_frame data now mkdir_ok st)) =
     pb_fps_values (playback_controller st)"
  by (simp_all add: handle_frame_def Let_def on_record_clicked_stop_fields ui_log_add_def)

lemma handle_frame_ok: "ui_ok st \<Longrightarrow> ui_ok (handle_frame data now mkdir_ok st)"
  by (simp add: ui_ok_def handle_frame_def Let_def on_record_clicked_stop_fields ui_log_add_def)


lemma handle_coordinate_Inr:
  assumes "handle_coordinate coord timestamp fps now ok st = Inr st'"
  obtains st4 st5 where
    "session_creation coord now ok st4 = Inr st5"
    "st' = record_pose (next_addr st) fps st5"
    "is_recording st4 = is_recording st"
    "waiting_for_first_coordinate st4 = waiting_for_first_coordinate st"
    "session_started st4 = session_started st"
    "recorded_frames st4 = recorded_frames st"
    "playback_controller st4 = playback_controller st"
proof -
  define st1 where "st1 = st\<lparr>push_fps := fps,
                    coordinate_predictor := set_fps fps None (coordinate_predictor st)\<rparr>"
  from assms obtain coord_delta where
    sub: "np_sub (take 6 coord) (last_received_coord st1) = Inr coord_delta"
    by (auto simp: handle_coordinate_def Let_def st1_def split: sum.splits)
  define upd where "upd = list_ex (\<lambda>v. abs v > 1 / 1000000) coord_delta"
  define st2 where "st2 = (note_repeat upd st1)\<lparr>last_received_coord := take 6 coord\<rparr>"
  from assms obtain p where
    p: "update (take 6 coord) timestamp upd (coordinate_predictor st2) = Inr p"
    unfolding handle_coordinate_def
    by (simp only: Let_def sub sum.case flip: st1_def upd_def st2_def) (auto split: sum.splits)
  define st3 where "st3 = st2\<lparr>coordinate_predictor := p,
                                    heap := (heap st2)(next_addr st2 := get_current_state p),
                                    next_addr := next_addr st2 + 1,
                                    current_coordinate := next_addr st2\<rparr>"
  define st4 where "st4 = auto_switch st3"
  from assms obtain st5 where
    st5: "session_creation coord now ok st4 = Inr st5"
      "st' = record_pose (next_addr st2) fps st5"
    unfolding handle_coordinate_def
    by (simp only: Let_def sub p sum.case flip: st1_def upd_def st2_def st3_def st4_def)
       (auto split: sum.splits)
  have n2: "next_addr st2 = next_addr st" by (simp add: st2_def st1_def)
  show ?thesis
    by (rule that [OF st5(1) st5(2) [unfolded n2]])
       (simp_all add: st4_def st3_def st2_def st1_def)
qed

lemma session_creation_series:
  assumes "session_creation coord now ok st = Inr st'"
  shows "pb_coords (playback_controller st') = pb_coords (playback_controller st)"
    "pb_fps_values (playback_controller st') = pb_fps_values (playback_controller st)"
  using assms create_session_mode
  by (auto simp: session_creation_def Let_def ui_log_add_def split: if_splits sum.splits)

lemma handle_coordinate_series:
  assumes "handle_coordinate coord timestamp fps now ok st = Inr st'"
  shows "length (pb_coords (playback_controller st')) -
           length (pb_coords (playback_controller st)) =
         length (pb_fps_values (playback_controller st')) -
           length (pb_fps_values (playback_controller st)) \<and>
         length (pb_coords (playback_controller st)) \<le> length (pb_coords (playback_controller st')) \<and>
         length (pb_fps_values (playback_controller st)) \<le>
           length (pb_fps_values (playback_controller st'))"
proof -
  from assms obtain st4 st5 where
    s: "session_creation coord now ok st4 = Inr st5" "st' = record_pose (next_addr st) fps st5"
      "playback_controller st4 = playback_controller st"
    by (rule handle_coordinate_Inr)
  from session_creation_series [OF s(1)] s(2,3) show ?thesis
    by (simp add: record_pose_def)
qed

lemma handle_coordinate_active:
  assumes "handle_coordinate coord timestamp fps now ok st = Inr st'"
    and "is_recording st" "session_started st" "\<not> waiting_for_first_coordinate st"
  shows "recorded_frames st' = recorded_frames st"
    "pb_coords (playback_controller st') = pb_coords (playback_controller st) @ [next_addr st]"
    "pb_fps_values (playback_controller st') = pb_fps_values (playback_controller st) @ [fps]"
    "is_recording st'" "session_started st'" "\<not> waiting_for_first_coordinate st'"
proof -
  from assms(1) obtain st4 st5 where
    s: "session_creation coord now ok st4 = Inr st5" "st' = record_pose (next_addr st) fps st5"
      "is_recording st4 = is_recording st"
      "waiting_for_first_coordinate st4 = waiting_for_first_coordinate st"
      "session_started st4 = session_started st"
      "recorded_frames st4 = recorded_frames st"
      "playback_controller st4 = playback_controller st"
    by (rule handle_coordinate_Inr)
  have "st5 = st4" using s(1,4) assms(4) by (simp add: session_creation_def)
  with s assms(2-4) show
    "recorded_frames st' = recorded_frames st"
    "pb_coords (playback_controller st') = pb_coords (playback_controller st) @ [next_addr st]"
    "pb_fps_values (playback_controller st') = pb_fps_values (playback_controller st) @ [fps]"
    "is_recording st'" "session_started st'" "\<not> waiting_for_first_coordinate st'"
    by (simp_all add: record_pose_def)
qed

subsection \<open>Sequences of messages\<close>

text \<open>
  A frame message carries the frame; a pose message carries the twelve values, the arrival
  timestamp and the declared fps. Each comes with what the environment answers while it
  is handled: the clock reading, and whether the directory or the session's storage could
  be set up.
\<close>

datatype message =
    FrameMessage frame real bool
  | PoseMessage vec real real real bool

fun well_formed :: "message \<Rightarrow> bool" where
  "well_formed (FrameMessage data now mkdir_ok) = True"
| "well_formed (PoseMessage coord timestamp fps now start_session_ok) =
     (length coord = COORD_DIMENSION)"

fun run_messages :: "message list \<Rightarrow> ui_state \<Rightarrow> py_error + ui_state" where
  "run_messages [] st = Inr st"
| "run_messages (FrameMessage data now mkdir_ok # ms) st =
     run_messages ms (handle_frame data now mkdir_ok st)"
| "run_messages (PoseMessage coord timestamp fps now start_session_ok # ms) st =
     (case handle_coordinate coord timestamp fps now start_session_ok st of
        Inl e \<Rightarrow> Inl e
      | Inr st' \<Rightarrow> run_messages ms st')"

definition active :: "ui_state \<Rightarrow> bool" where
  "active st = (is_recording st \<and> session_started st \<and> \<not> waiting_for_first_coordinate st)"

lemma run_messages_series:
  assumes "ui_ok st" "list_all well_formed ms"
    and "length (pb_coords (playback_controller st)) =
         length (pb_fps_values (playback_controller st))"
  shows "\<exists>st'. run_messages ms st = Inr st' \<and> ui_ok st' \<and>
           length (pb_coords (playback_controller st')) =
           length (pb_fps_values (playback_controller st'))"
  using assms
proof (induction ms arbitrary: st)
  case Nil
  then show ?case by simp
next
  case (Cons m ms)
  show ?case
  proof (cases m)
    case (FrameMessage data now mkdir_ok)
    have "ui_ok (handle_frame data now mkdir_ok st)"
      using Cons.prems(1) by (rule handle_frame_ok)
    moreover have "length (pb_coords (playback_controller (handle_frame data now mkdir_ok st))) =
         length (pb_fps_values (playback_controller (handle_frame data now mkdir_ok st)))"
      using Cons.prems(3) by (simp add: handle_frame_series)
    ultimately show ?thesis
      using Cons.IH [of "handle_frame data now mkdir_ok st"] Cons.prems(2) FrameMessage
      by simp
  next
    case (PoseMessage coord timestamp fps now start_session_ok)
    then have len: "length coord = COORD_DIMENSION" using Cons.prems(2) by simp
    from handle_coordinate_returns [OF Cons.prems(1) len, of timestamp fps now start_session_ok]
    obtain st1 where st1: "handle_coordinate coord timestamp fps now start_session_ok st = Inr st1"
      "ui_ok st1" by blast
    have "length (pb_coords (playback_controller st1)) =
          length (pb_fps_values (playback_controller st1))"
      using handle_coordinate_series [OF st1(1)] Cons.prems(3) by linarith
    then show ?thesis
      using Cons.IH [of st1] st1 Cons.prems(2) PoseMessage by simp
  qed
qed


subsection \<open>A recorded run: start, two frames, the first pose\<close>

definition st_awaiting :: ui_state where
  "st_awaiting = start_recording 0 True ui_initial"

definition st_cached :: ui_state where
  "st_cached = handle_frame (frame_of 7) 1 True st_awaiting"

definition st_second :: ui_state where
  "st_second = handle_frame (frame_of 9) 2 True st_cached"

definition st_first_pose :: ui_state where
  "st_first_pose = projr (handle_coordinate pose_one 3 30 3 True st_second)"

lemma zeros_literals:
  "zeros 6 = [0, 0, 0, 0, 0, 0]" "zeros 12 = [0, 0, 0, 0, 0, 0, 0, 0, 0, 0, 0, 0]"
  by (simp_all add: zeros_def eval_nat_numeral)

lemma st_awaiting_facts:
  "ui_ok st_awaiting" "is_recording st_awaiting" "waiting_for_first_coordinate st_awaiting"
  "first_frame_data st_awaiting = None" "recorded_frames st_awaiting = []"
  "auto_save_check st_awaiting" "recording_start_time st_awaiting = 0"
  "pb_coords (playback_controller st_awaiting) = []"
  "pb_fps_values (playback_controller st_awaiting) = []"
  "next_addr st_awaiting = 1" "frame_count_spin st_awaiting = 60"
  "coordinate_predictor st_awaiting = predictor_30"
  "last_received_coord st_awaiting = zeros 6"
proof -
  have path: "path_edit ui_initial \<noteq> []" by (simp add: ui_initial_def)
  show "ui_ok st_awaiting"
    unfolding st_awaiting_def using ui_initial_ok by (rule start_recording_ok)
  show "is_recording st_awaiting" "waiting_for_first_coordinate st_awaiting"
    "first_frame_data st_awaiting = None" "recorded_frames st_awaiting = []"
    "auto_save_check st_awaiting" "recording_start_time st_awaiting = 0"
    "pb_coords (playback_controller st_awaiting) = []"
    "pb_fps_values (playback_controller st_awaiting) = []"
    "next_addr st_awaiting = 1" "frame_count_spin st_awaiting = 60"
    "coordinate_predictor st_awaiting = predictor_30"
    "last_received_coord st_awaiting = zeros 6"
    unfolding st_awaiting_def
    by (simp_all add: start_recording_awaiting [OF path]) (simp_all add: ui_initial_def)
qed

lemma st_cached_eq:
  "st_cached = ui_log_add ModProcess LOG_INFO
     (st_awaiting\<lparr>fps_cnt := fps_cnt st_awaiting + 1, first_frame_data := Some (frame_of 7),
                 frame_buffer := set_reference (frame_of 7) (frame_buffer st_awaiting)\<rparr>)"
  unfolding st_cached_def
  by (simp add: handle_frame_awaiting st_awaiting_facts)

lemma st_second_eq: "st_second = st_cached\<lparr>fps_cnt := fps_cnt st_cached + 1\<rparr>"
  unfolding st_second_def
  by (subst handle_frame_awaiting) (simp_all add: st_cached_eq ui_log_add_def st_awaiting_facts)

lemma st_second_facts:
  "ui_ok st_second" "is_recording st_second" "waiting_for_first_coordinate st_second"
  "first_frame_data st_second = Some (frame_of 7)" "recorded_frames st_second = []"
  "auto_save_check st_second" "recording_start_time st_second = 0"
  "pb_coords (playback_controller st_second) = []"
  "pb_fps_values (playback_controller st_second) = []"
  "next_addr st_second = 1" "frame_count_spin st_second = 60"
  "coordinate_predictor st_second = predictor_30"
  "last_received_coord st_second = zeros 6"
  using st_awaiting_facts
  by (simp_all add: st_second_eq st_cached_eq ui_log_add_def ui_ok_def)

lemma first_update_30:
  "\<exists>p. update [1, 2, 3, 4, 5, 6] 3 True (set_fps 30 None predictor_30) = Inr p \<and>
       kf_x p ! 0 = 9019 / 9109"
proof -
  define q where "q = set_fps 30 None predictor_30"
  have A: "kf_A q = mkA 0"
    by (simp add: q_def set_fps_def Let_def predictor_30_def eye_mkA)
  have P: "kf_P q = blk 100 0 100"
    by (simp add: q_def set_fps_def Let_def predictor_30_def init_P_blk)
  have x: "kf_x q = zeros 12"
    by (simp add: q_def set_fps_def Let_def predictor_30_def state_dim_def COORD_DIMENSION_def)
  have dt: "fst (choose_dt 3 q) = 1 / 30"
    by (simp add: q_def set_fps_def Let_def predictor_30_def choose_dt_def kf_log_def)
  have len: "length [1, 2, 3, 4, 5, 6 :: real] = 6" by simp
  from update_on_blk [OF len A P, of 3 True]
  obtain p where p: "update [1, 2, 3, 4, 5, 6] 3 True q = Inr p"
    "kf_x p = vec_add (mat_vec (mkA (1 / 30)) (zeros 12))
        (mat_vec (mat_mul (mat_mul
            (blk (100 + 1 / 30 * 0 + 1 / 30 * (0 + 1 / 30 * 100) + 0.1) (0 + 1 / 30 * 100)
                 (100 + 0.1)) (mat_T H))
            (mat_scale (eye 6)
               (1 / (100 + 1 / 30 * 0 + 1 / 30 * (0 + 1 / 30 * 100) + 0.1 + (if True then 1 else 100)))))
           (vec_sub [1, 2, 3, 4, 5, 6] (mat_vec H (mat_vec (mkA (1 / 30)) (zeros 12)))))"
    unfolding dt x by auto
  have "kf_x p ! 0 = 9019 / 9109"
    unfolding p(2)
    by (simp add: vec_add_def vec_sub_def mat_vec_def mkA_def blk_def zeros_literals mat_defs)
  with p(1) show ?thesis unfolding q_def by blast
qed


lemma st_first_pose_facts:
  "handle_coordinate pose_one 3 30 3 True st_second = Inr st_first_pose"
  "active st_first_pose" "ui_ok st_first_pose"
  "recorded_frames st_first_pose = [frame_of 7]"
  "pb_coords (playback_controller st_first_pose) = [1]"
  "pb_fps_values (playback_controller st_first_pose) = [30]"
  "heap st_first_pose 1 =
     [1, 2, 3, 4, 5, 6] @ drop 6 (kf_x (coordinate_predictor st_first_pose))"
  "kf_x (coordinate_predictor st_first_pose) ! 0 = 9019 / 9109"
proof -
  have t6: "take 6 pose_one = [1, 2, 3, 4, 5, 6]" by (simp add: pose_one_def)
  have fresh: "list_ex (\<lambda>v. abs v > 1 / 1000000)
                 (map2 (-) (take 6 pose_one) (last_received_coord st_second))"
    by (simp add: t6 st_second_facts zeros_literals)
  from handle_coordinate_first_pose
         [OF st_second_facts(1) pose_one_length st_second_facts(3) st_second_facts(2),
          of True 3 30]
  obtain s p where s:
    "\<And>now. handle_coordinate pose_one 3 30 now True st_second =
        Inr (record_pose (next_addr st_second) 30
               (ui_log_add ModAcquire (first_pose_level now st_second) s))"
    "session_started s" "\<not> waiting_for_first_coordinate s" "is_recording s"
    "playback_controller s = playback_controller st_second"
    "recorded_frames s = recorded_frames st_second @
        (case first_frame_data st_second of None \<Rightarrow> [] | Some f \<Rightarrow> [f])"
    "heap s (next_addr st_second) = take 6 pose_one @ drop 6 (kf_x (coordinate_predictor s))"
    "update (take 6 pose_one) 3
       (list_ex (\<lambda>v. abs v > 1 / 1000000)
          (map2 (-) (take 6 pose_one) (last_received_coord st_second)))
       (set_fps 30 None (coordinate_predictor st_second)) = Inr p"
    "kf_x (coordinate_predictor s) = kf_x p"
    "kf_ok (coordinate_predictor s)" "last_received_coord s = take 6 pose_one"
    by auto
  define st' where "st' = record_pose (next_addr st_second) 30
               (ui_log_add ModAcquire (first_pose_level 3 st_second) s)"
  have eq: "st_first_pose = st'"
    by (simp add: st_first_pose_def s(1) st'_def)
  show "handle_coordinate pose_one 3 30 3 True st_second = Inr st_first_pose"
    by (simp add: eq st'_def s(1))
  show "active st_first_pose"
    using s(2-4) by (simp add: eq st'_def active_def record_pose_def ui_log_add_def)
  show "ui_ok st_first_pose"
    using s(3,10,11)
    by (simp add: eq st'_def ui_ok_def record_pose_def ui_log_add_def t6)
  show "recorded_frames st_first_pose = [frame_of 7]"
    using s(6) by (simp add: eq st'_def ui_log_add_def st_second_facts)
  show "pb_coords (playback_controller st_first_pose) = [1]"
    "pb_fps_values (playback_controller st_first_pose) = [30]"
    using s(2,4,5) by (simp_all add: eq st'_def record_pose_def ui_log_add_def st_second_facts)
  show "heap st_first_pose 1 =
     [1, 2, 3, 4, 5, 6] @ drop 6 (kf_x (coordinate_predictor st_first_pose))"
    using s(7) by (simp add: eq st'_def ui_log_add_def st_second_facts t6)
  from first_update_30 s(8) fresh have "kf_x p ! 0 = 9019 / 9109"
    by (auto simp: t6 st_second_facts)
  then show "kf_x (coordinate_predictor st_first_pose) ! 0 = 9019 / 9109"
    using s(9) by (simp add: eq st'_def ui_log_add_def)
qed


text \<open>
  C3, evaluated on the run above: recording is started, the frames \<open>frame_of 7\<close> and
  \<open>frame_of 9\<close> arrive, then the pose \<open>(1, 2, 3, 4, 5, 6)\<close> with 30 fps declared. The first
  frame is cached and the second is dropped; the session's frame 0 is the cached frame.
  The session's pose 0 is the array that \<open>get_current_state\<close> returned, but
  \<open>_create_session_with_coordinate\<close> has overwritten its first six entries in place with
  the raw measurement (the array is also \<open>self.current_coordinate\<close>): entry 0 of pose 0 is
  \<open>1\<close>, entry 0 of the estimator's state is \<open>9019 / 9109\<close>.
\<close>

theorem first_pose_entry_holds_raw_measurement:
  "first_frame_data st_cached = Some (frame_of 7) \<and>
   first_frame_data st_second = Some (frame_of 7) \<and>
   recorded_frames st_second = [] \<and>
   handle_coordinate pose_one 3 30 3 True st_second = Inr st_first_pose \<and>
   recorded_frames st_first_pose ! 0 = frame_of 7 \<and>
   length (recorded_frames st_first_pose) = 1 \<and>
   take 6 (heap st_first_pose (pb_coords (playback_controller st_first_pose) ! 0)) =
     [1, 2, 3, 4, 5, 6] \<and>
   drop 6 (heap st_first_pose (pb_coords (playback_controller st_first_pose) ! 0)) =
     drop 6 (get_current_state (coordinate_predictor st_first_pose)) \<and>
   get_current_state (coordinate_predictor st_first_pose) ! 0 = 9019 / 9109 \<and>
   heap st_first_pose (pb_coords (playback_controller st_first_pose) ! 0) \<noteq>
     get_current_state (coordinate_predictor st_first_pose)"
proof -
  have "heap st_first_pose 1 ! 0 = 1"
    unfolding st_first_pose_facts(7) by simp
  then have "heap st_first_pose 1 \<noteq> kf_x (coordinate_predictor st_first_pose)"
    using st_first_pose_facts(8) by auto
  then show ?thesis
    using st_first_pose_facts st_second_facts
    by (simp add: get_current_state_def st_cached_eq ui_log_add_def)
qed

text \<open>
  C1, as stated, fails: after the first pose of the run above the three series have one
  entry each and the session is active; the next pose message leaves one frame and two
  poses, with the session still active.
\<close>

definition st_next_pose :: ui_state where
  "st_next_pose = projr (handle_coordinate pose_one 4 30 4 True st_first_pose)"

theorem series_lengths_counterexample:
  "active st_first_pose \<and>
   length (recorded_frames st_first_pose) = 1 \<and>
   length (pb_coords (playback_controller st_first_pose)) = 1 \<and>
   length (pb_fps_values (playback_controller st_first_pose)) = 1 \<and>
   handle_coordinate pose_one 4 30 4 True st_first_pose = Inr st_next_pose \<and>
   active st_next_pose \<and>
   length (recorded_frames st_next_pose) = 1 \<and>
   length (pb_coords (playback_controller st_next_pose)) = 2 \<and>
   length (recorded_frames st_next_pose) \<noteq> length (pb_coords (playback_controller st_next_pose))"
proof -
  from handle_coordinate_returns [OF st_first_pose_facts(3) pose_one_length, of 4 30 4 True]
  obtain st' where st': "handle_coordinate pose_one 4 30 4 True st_first_pose = Inr st'"
    by blast
  then have eq: "st_next_pose = st'" by (simp add: st_next_pose_def)
  have a: "is_recording st_first_pose" "session_started st_first_pose"
    "\<not> waiting_for_first_coordinate st_first_pose"
    using st_first_pose_facts(2) by (simp_all add: active_def)
  from handle_coordinate_active [OF st' a] st' st_first_pose_facts
  show ?thesis by (simp add: eq active_def)
qed

text \<open>
  C1, as amended. Over any sequence of frame and pose messages (pose messages with twelve
  values, from a state the handlers have produced) every message is handled to the end
  and the pose series and the declared-fps series have the same length afterwards.
  While the session is active a frame message appends the frame to the frame series and
  leaves the other two alone, and a pose message appends one entry to the pose series
  and one to the declared-fps series and leaves the frame series alone.
\<close>

theorem pose_and_fps_series_stay_equal:
  "(ui_ok st \<and> list_all well_formed ms \<and>
    length (pb_coords (playback_controller st)) =
      length (pb_fps_values (playback_controller st)) \<longrightarrow>
      (\<exists>st'. run_messages ms st = Inr st' \<and>
         length (pb_coords (playback_controller st')) =
           length (pb_fps_values (playback_controller st')))) \<and>
   (active st \<longrightarrow>
      recorded_frames (handle_frame data now mkdir_ok st) = recorded_frames st @ [data] \<and>
      pb_coords (playback_controller (handle_frame data now mkdir_ok st)) =
        pb_coords (playback_controller st) \<and>
      pb_fps_values (playback_controller (handle_frame data now mkdir_ok st)) =
        pb_fps_values (playback_controller st)) \<and>
   (active st \<and> handle_coordinate coord timestamp fps now start_session_ok st = Inr st1 \<longrightarrow>
      active st1 \<and> recorded_frames st1 = recorded_frames st \<and>
      pb_coords (playback_controller st1) = pb_coords (playback_controller st) @ [next_addr st] \<and>
      pb_fps_values (playback_controller st1) = pb_fps_values (playback_controller st) @ [fps])"
proof (intro conjI impI)
  assume "ui_ok st \<and> list_all well_formed ms \<and>
    length (pb_coords (playback_controller st)) = length (pb_fps_values (playback_controller st))"
  then show "\<exists>st'. run_messages ms st = Inr st' \<and>
         length (pb_coords (playback_controller st')) =
           length (pb_fps_values (playback_controller st'))"
    using run_messages_series [of st ms] by blast
next
  assume a: "active st"
  then show "recorded_frames (handle_frame data now mkdir_ok st) = recorded_frames st @ [data]"
    by (simp add: active_def handle_frame_recording)
  show "pb_coords (playback_controller (handle_frame data now mkdir_ok st)) =
        pb_coords (playback_controller st)"
    "pb_fps_values (playback_controller (handle_frame data now mkdir_ok st)) =
        pb_fps_values (playback_controller st)"
    by (simp_all add: handle_frame_series)
next
  assume a: "active st \<and> handle_coordinate coord timestamp fps now start_session_ok st = Inr st1"
  then have h: "handle_coordinate coord timestamp fps now start_session_ok st = Inr st1"
    and r: "is_recording st" "session_started st" "\<not> waiting_for_first_coordinate st"
    by (simp_all add: active_def)
  from handle_coordinate_active [OF h r]
  show "active st1" "recorded_frames st1 = recorded_frames st"
    "pb_coords (playback_controller st1) = pb_coords (playback_controller st) @ [next_addr st]"
    "pb_fps_values (playback_controller st1) = pb_fps_values (playback_controller st) @ [fps]"
    by (simp_all add: active_def)
qed

theorem pose_and_fps_series_stay_equal_witness:
  "ui_ok st_first_pose \<and> active st_first_pose \<and>
   list_all well_formed [FrameMessage (frame_of 9) 4 True, PoseMessage pose_one 5 30 5 True] \<and>
   length (pb_coords (playback_controller st_first_pose)) =
     length (pb_fps_values (playback_controller st_first_pose)) \<and>
   (\<exists>st'. run_messages [FrameMessage (frame_of 9) 4 True, PoseMessage pose_one 5 30 5 True]
            st_first_pose = Inr st' \<and>
      length (pb_coords (playback_controller st')) =
        length (pb_fps_values (playback_controller st'))) \<and>
   recorded_frames (handle_frame (frame_of 9) 4 True st_first_pose) =
     [frame_of 7, frame_of 9] \<and>
   pb_coords (playback_controller (handle_frame (frame_of 9) 4 True st_first_pose)) = [1] \<and>
   handle_coordinate pose_one 3 30 3 True st_second = Inr st_first_pose"
proof -
  have wf: "list_all well_formed
      [FrameMessage (frame_of 9) 4 True, PoseMessage pose_one 5 30 5 True]"
    by (simp add: pose_one_length)
  from pose_and_fps_series_stay_equal
         [of st_first_pose "[FrameMessage (frame_of 9) 4 True, PoseMessage pose_one 5 30 5 True]"
             "frame_of 9" 4 True]
  show ?thesis
    using wf st_first_pose_facts by simp
qed


end
